theory Spec2Isabelle
  imports Main "HOL-Library.Word" "HOL-Library.Char_ord" "HOL-Library.List_Lexorder"
begin

unbundle bit_operations_syntax

section \<open>Data model\<close>

text \<open>
  The publisher status pipeline of bat-native-ledger:
  \<^verbatim>\<open>publisher/server_publisher_fetcher.cc\<close> (wire codec, cache expiry, per-key fetcher) and
  \<^verbatim>\<open>publisher/publisher_status_helper.cc\<close> (batch refresher and its two list adapters).

  Keys are \<^verbatim>\<open>std::string\<close>s, modelled as \<^typ>\<open>string\<close>; a response body is a byte
  buffer. \<^verbatim>\<open>base::Time\<close> and \<^verbatim>\<open>base::TimeDelta\<close> are counts of microseconds (relative to
  the Unix epoch), modelled as unbounded integers.
\<close>

type_synonym bytes = "8 word list"
type_synonym Time = int
type_synonym TimeDelta = int

text \<open>
  Modelled from the spec: \<^verbatim>\<open>ledger::PublisherStatus\<close> (the mojom declarations are not part
  of the sources), its enumerators in increasing order; the first one has the value 0.
\<close>

datatype PublisherStatus = NOT_VERIFIED | CONNECTED | VERIFIED

text \<open>The donation amounts of a banner are \<^verbatim>\<open>double\<close>s that the code only copies.\<close>

typedecl double

text \<open>\<^verbatim>\<open>struct PublisherStatusData\<close> of publisher_status_helper.h.\<close>

record PublisherStatusData =
  status :: PublisherStatus
  updated_at :: "64 word"

text \<open>
  \<^verbatim>\<open>PublisherStatusMap = std::map<std::string, PublisherStatusData>\<close>: an association list in
  iteration order.
\<close>

type_synonym PublisherStatusMap = "(string \<times> PublisherStatusData) list"

text \<open>
  Modelled from the spec: \<^verbatim>\<open>ledger::PublisherBanner\<close> (a mojom structure); \<^verbatim>\<open>links\<close> is a
  sorted map from provider name to URL.
\<close>

record PublisherBanner =
  title :: string
  description :: string
  background :: string
  logo :: string
  amounts :: "double list"
  links :: "(string \<times> string) list"

text \<open>
  Modelled from the spec: \<^verbatim>\<open>ledger::ServerPublisherInfo\<close> (a mojom structure), with the
  fields the fetcher writes. A null \<^verbatim>\<open>ServerPublisherInfoPtr\<close> is \<^term>\<open>None\<close>; so is a
  null \<^verbatim>\<open>banner\<close>. An empty \<^verbatim>\<open>address\<close> stands for no wallet address.
\<close>

record ServerPublisherInfo =
  publisher_key :: string
  status :: PublisherStatus
  address :: string
  updated_at :: "64 word"
  banner :: "PublisherBanner option"

text \<open>
  The part of \<^verbatim>\<open>bat_ledger::LedgerImpl\<close> the two files call; the class is not part of the
  sources, and its methods are parameters. The asynchronous collaborators
  \<^verbatim>\<open>SearchPublisherList\<close> and \<^verbatim>\<open>RefreshPublisher\<close> are given by the answer they pass to
  their callback for a key.
\<close>

record LedgerImpl =
  GetUint64Option :: "string \<Rightarrow> 64 word"
  ShouldFetchServerPublisherInfo :: "Time \<Rightarrow> bool"
  SearchPublisherList :: "string \<Rightarrow> bool"
  RefreshPublisher :: "string \<Rightarrow> PublisherStatus"

section \<open>Time\<close>

text \<open>
  Modelled from the spec: \<^verbatim>\<open>base::TimeDelta::InSeconds\<close> (base/time is not part of the
  sources), the age in whole seconds: an integer division that truncates towards zero.
\<close>

definition InSeconds :: "TimeDelta \<Rightarrow> int" where
  "InSeconds delta =
     (if delta < 0 then - ((- delta) div 1000000) else delta div 1000000)"

text \<open>
  Modelled from the spec: \<^verbatim>\<open>base::Time::FromDoubleT(t)\<close> for a \<^verbatim>\<open>uint64_t\<close> count of
  seconds \<open>t\<close>, and \<^verbatim>\<open>static_cast<uint64_t>(time.ToDoubleT())\<close>, the time in whole seconds.
  The floating-point step in between is taken as exact.
\<close>

definition FromDoubleT :: "64 word \<Rightarrow> Time" where
  "FromDoubleT t = int (unat t) * 1000000"

definition ToDoubleT_uint64 :: "Time \<Rightarrow> 64 word" where
  "ToDoubleT_uint64 t = word_of_int (t div 1000000)"

section \<open>Cache expiry policy\<close>

text \<open>
  Modelled from the spec: the option key \<^verbatim>\<open>ledger::kOptionPublisherListRefreshInterval\<close>
  (option_keys.h is not part of the sources): the refresh interval of the publisher
  prefix list.
\<close>

definition kOptionPublisherListRefreshInterval :: string where
  "kOptionPublisherListRefreshInterval = ''publisher_list_refresh_interval''"

text \<open>
  \<^verbatim>\<open>GetCacheExpiryInSeconds\<close> returns the \<^verbatim>\<open>uint64_t\<close> option as an \<^verbatim>\<open>int64_t\<close>.
\<close>

definition GetCacheExpiryInSeconds :: "LedgerImpl \<Rightarrow> int" where
  "GetCacheExpiryInSeconds ledger =
     sint (GetUint64Option ledger kOptionPublisherListRefreshInterval)"

text \<open>
  \<^verbatim>\<open>ServerPublisherFetcher::IsExpired(base::Time)\<close>, with the value of
  \<^verbatim>\<open>base::Time::Now()\<close> as \<open>now\<close>. The branch on \<^verbatim>\<open>age.InSeconds() < 0\<close> only writes a log line and has no part
  in the result; the model leaves the log out.
\<close>

definition IsExpired :: "LedgerImpl \<Rightarrow> Time \<Rightarrow> Time \<Rightarrow> bool" where
  "IsExpired ledger now last_update_time =
     (let age = now - last_update_time in
      InSeconds age > GetCacheExpiryInSeconds ledger)"

text \<open>\<^verbatim>\<open>ServerPublisherFetcher::IsExpired(ledger::ServerPublisherInfo*)\<close>.\<close>

definition IsExpired_info :: "LedgerImpl \<Rightarrow> Time \<Rightarrow> ServerPublisherInfo option \<Rightarrow> bool" where
  "IsExpired_info ledger now server_info =
     (case server_info of
        Some info \<Rightarrow> IsExpired ledger now (FromDoubleT (ServerPublisherInfo.updated_at info))
      | None \<Rightarrow> True)"

section \<open>Wire codec: padding\<close>

text \<open>
  Modelled from the spec: \<^verbatim>\<open>base::ReadBigEndian\<close> (base/big_endian.h is not part of the
  sources) reads a 4-byte big-endian unsigned integer from the front of the buffer.
  \<^verbatim>\<open>WriteBigEndian\<close> is the encoding it reads.
\<close>

definition ReadBigEndian :: "bytes \<Rightarrow> 32 word" where
  "ReadBigEndian buf = foldl (\<lambda>out b. push_bit 8 out OR ucast b) 0 (take 4 buf)"

definition WriteBigEndian :: "32 word \<Rightarrow> bytes" where
  "WriteBigEndian w =
     [ucast (drop_bit 24 w), ucast (drop_bit 16 w), ucast (drop_bit 8 w), ucast w]"

text \<open>
  \<^verbatim>\<open>RemovePadding(std::string_view*)\<close>: the returned flag, and the view as the call leaves
  it (\<^term>\<open>None\<close> for a null pointer).
\<close>

definition RemovePadding :: "bytes option \<Rightarrow> bool \<times> bytes option" where
  "RemovePadding padded_string =
     (case padded_string of
        None \<Rightarrow> (False, None)
      | Some s \<Rightarrow>
          if length s < 4 then (False, Some s)
          else
            let data_length = ReadBigEndian s;
                s1 = drop 4 s
            in if length s1 < unat data_length then (False, Some s1)
               else (True, Some (take (length s1 - (length s1 - unat data_length)) s1)))"

section \<open>Wire codec: messages\<close>

text \<open>
  Modelled from the spec: the protobuf messages of channel_response.proto (not part of
  the sources), with the accessors the code calls. A
  \<^verbatim>\<open>wallet_connected_state\<close> other than the two the code names is \<open>OTHER_STATE\<close> with its
  number; \<^verbatim>\<open>has_social_links()\<close> and \<^verbatim>\<open>has_site_banner_details()\<close> are the options.
\<close>

datatype WalletConnectedState = UPHOLD_ACCOUNT_KYC | UPHOLD_ACCOUNT_NO_KYC | OTHER_STATE int

record SocialLinks =
  youtube :: string
  twitter :: string
  twitch :: string

record SiteBannerDetails =
  title :: string
  description :: string
  background_url :: string
  logo_url :: string
  donation_amounts :: "double list"
  social_links :: "SocialLinks option"

record ChannelResponse =
  channel_identifier :: string
  wallet_connected_state :: WalletConnectedState
  wallet_address :: string
  site_banner_details :: "SiteBannerDetails option"

type_synonym ChannelResponseList = "ChannelResponse list"

text \<open>
  The two libraries \<^verbatim>\<open>ParseResponse\<close> calls: \<^verbatim>\<open>BrotliStreamDecoder::DecodeString\<close> (the
  decoded output when the result is \<^verbatim>\<open>Done\<close>) and the protobuf parser
  \<^verbatim>\<open>ChannelResponseList::ParseFromString\<close> (the message when it returns true).
\<close>

record WireLibrary =
  DecodeString :: "bytes \<Rightarrow> bytes option"
  ParseFromString :: "bytes \<Rightarrow> ChannelResponseList option"

text \<open>
  Modelled from the spec: \<^verbatim>\<open>net::HTTP_OK\<close> and \<^verbatim>\<open>net::HTTP_NOT_FOUND\<close>
  (net/http/http_status_code.h is not part of the sources), the codes 200 and 404.
\<close>

definition HTTP_OK :: int where
  "HTTP_OK = 200"

definition HTTP_NOT_FOUND :: int where
  "HTTP_NOT_FOUND = 404"

text \<open>
  \<^verbatim>\<open>insert\<close> on a sorted map with unique keys (\<^verbatim>\<open>std::map\<close>, \<^verbatim>\<open>base::flat_map\<close>): a key
  that is present keeps its value.
\<close>

fun map_insert :: "'k::linorder \<times> 'v \<Rightarrow> ('k \<times> 'v) list \<Rightarrow> ('k \<times> 'v) list" where
  "map_insert (k, v) [] = [(k, v)]"
| "map_insert (k, v) ((k', v') # m) =
     (if k < k' then (k, v) # (k', v') # m
      else if k = k' then (k', v') # m
      else (k', v') # map_insert (k, v) m)"

text \<open>
  Modelled from the spec: \<^verbatim>\<open>ledger::PublisherBanner::New()\<close> and
  \<^verbatim>\<open>ledger::ServerPublisherInfo::New()\<close> (the generated mojom code is not part of the
  sources): empty strings and containers, no banner, the first status.
\<close>

definition PublisherBanner_New :: PublisherBanner where
  "PublisherBanner_New =
     \<lparr>PublisherBanner.title = [], PublisherBanner.description = [], background = [],
      logo = [], amounts = [], links = []\<rparr>"

definition ServerPublisherInfo_New :: ServerPublisherInfo where
  "ServerPublisherInfo_New =
     \<lparr>publisher_key = [], ServerPublisherInfo.status = NOT_VERIFIED, address = [],
      ServerPublisherInfo.updated_at = 0, banner = None\<rparr>"

fun PublisherStatusFromMessage :: "ChannelResponse \<Rightarrow> PublisherStatus" where
  "PublisherStatusFromMessage response =
     (case wallet_connected_state response of
        UPHOLD_ACCOUNT_KYC \<Rightarrow> VERIFIED
      | UPHOLD_ACCOUNT_NO_KYC \<Rightarrow> CONNECTED
      | OTHER_STATE n \<Rightarrow> NOT_VERIFIED)"

definition PublisherBannerFromMessage :: "SiteBannerDetails \<Rightarrow> PublisherBanner" where
  "PublisherBannerFromMessage banner_details =
     (let b0 = PublisherBanner_New;
          b1 = b0\<lparr>PublisherBanner.title := SiteBannerDetails.title banner_details\<rparr>;
          b2 = b1\<lparr>PublisherBanner.description := SiteBannerDetails.description banner_details\<rparr>;
          b3 = (if background_url banner_details \<noteq> []
                then b2\<lparr>background := ''chrome://rewards-image/'' @ background_url banner_details\<rparr>
                else b2);
          b4 = (if logo_url banner_details \<noteq> []
                then b3\<lparr>logo := ''chrome://rewards-image/'' @ logo_url banner_details\<rparr>
                else b3);
          b5 = foldl (\<lambda>b amount. b\<lparr>amounts := amounts b @ [amount]\<rparr>) b4
                 (donation_amounts banner_details)
      in case social_links banner_details of
           None \<Rightarrow> b5
         | Some l \<Rightarrow>
             let b6 = (if youtube l \<noteq> []
                       then b5\<lparr>links := map_insert (''youtube'', youtube l) (links b5)\<rparr>
                       else b5);
                 b7 = (if twitter l \<noteq> []
                       then b6\<lparr>links := map_insert (''twitter'', twitter l) (links b6)\<rparr>
                       else b6)
             in if twitch l \<noteq> []
                then b7\<lparr>links := map_insert (''twitch'', twitch l) (links b7)\<rparr>
                else b7)"

text \<open>
  \<^verbatim>\<open>ServerPublisherInfoFromMessage\<close>: the first entry of the message whose identifier is the
  expected key, mapped to a record; null when there is none.
\<close>

fun ServerPublisherInfoFromMessage ::
  "Time \<Rightarrow> ChannelResponseList \<Rightarrow> string \<Rightarrow> ServerPublisherInfo option" where
  "ServerPublisherInfoFromMessage now [] expected_key = None"
| "ServerPublisherInfoFromMessage now (entry # rest) expected_key =
     (if channel_identifier entry \<noteq> expected_key
      then ServerPublisherInfoFromMessage now rest expected_key
      else
        let s0 = ServerPublisherInfo_New;
            s1 = s0\<lparr>publisher_key := channel_identifier entry\<rparr>;
            s2 = s1\<lparr>ServerPublisherInfo.status := PublisherStatusFromMessage entry\<rparr>;
            s3 = s2\<lparr>address := wallet_address entry\<rparr>;
            s4 = s3\<lparr>ServerPublisherInfo.updated_at := ToDoubleT_uint64 now\<rparr>
        in Some (case site_banner_details entry of
                   None \<Rightarrow> s4
                 | Some d \<Rightarrow> s4\<lparr>banner := Some (PublisherBannerFromMessage d)\<rparr>))"

text \<open>\<^verbatim>\<open>DecompressMessage\<close>: the output when the decoder finishes, failure otherwise.\<close>

definition DecompressMessage :: "WireLibrary \<Rightarrow> bytes \<Rightarrow> bytes option" where
  "DecompressMessage lib payload = DecodeString lib payload"

text \<open>\<^verbatim>\<open>ServerPublisherFetcher::GetServerInfoForEmptyResponse\<close>.\<close>

definition GetServerInfoForEmptyResponse :: "Time \<Rightarrow> string \<Rightarrow> ServerPublisherInfo" where
  "GetServerInfoForEmptyResponse now key =
     (let s0 = ServerPublisherInfo_New;
          s1 = s0\<lparr>publisher_key := key\<rparr>;
          s2 = s1\<lparr>ServerPublisherInfo.status := NOT_VERIFIED\<rparr>
      in s2\<lparr>ServerPublisherInfo.updated_at := ToDoubleT_uint64 now\<rparr>)"

text \<open>
  \<^verbatim>\<open>ServerPublisherFetcher::ParseResponse\<close>, with the value of \<^verbatim>\<open>base::Time::Now()\<close> as
  \<open>now\<close>. Every \<^verbatim>\<open>return nullptr\<close> is a \<^term>\<open>None\<close>.
\<close>

definition ParseResponse ::
  "WireLibrary \<Rightarrow> Time \<Rightarrow> string \<Rightarrow> int \<Rightarrow> bytes \<Rightarrow> ServerPublisherInfo option" where
  "ParseResponse lib now key response_status_code response =
     (if response_status_code = HTTP_NOT_FOUND
      then Some (GetServerInfoForEmptyResponse now key)
      else if response_status_code \<noteq> HTTP_OK \<or> response = [] then None
      else
        case RemovePadding (Some response) of
          (True, Some response_payload) \<Rightarrow>
            let message_string =
                  (case DecompressMessage lib response_payload of
                     Some output \<Rightarrow> output
                   | None \<Rightarrow> response_payload)
            in (case ParseFromString lib message_string of
                  None \<Rightarrow> None
                | Some message \<Rightarrow>
                    (case ServerPublisherInfoFromMessage now message key of
                       None \<Rightarrow> Some (GetServerInfoForEmptyResponse now key)
                     | Some server_info \<Rightarrow> Some server_info))
        | _ \<Rightarrow> None)"

section \<open>Server publisher fetcher\<close>

text \<open>
  A \<^verbatim>\<open>ledger::GetServerPublisherInfoCallback\<close> is opaque to the fetcher: it is a handle, and
  running it is recorded. What a callback does when it runs, a call back into the fetcher
  included, is outside this model. \<^verbatim>\<open>ledger::Result\<close> is \<^verbatim>\<open>LEDGER_OK\<close> or another value.
\<close>

type_synonym callback = nat

datatype Result = LEDGER_OK | OTHER_RESULT int

text \<open>\<^verbatim>\<open>ledger::UrlResponse\<close>, the two fields \<^verbatim>\<open>OnFetchCompleted\<close> reads.\<close>

record UrlResponse =
  status_code :: int
  body :: bytes

text \<open>
  The helpers behind the request URL that are not part of the sources
  (\<^verbatim>\<open>GetHashPrefixInHex\<close> of prefix_util and \<^verbatim>\<open>BuildUrl\<close> of request_util) are parameters.
\<close>

datatype ServerTypes = kPublisher | OTHER_SERVER int

record RequestUtil =
  GetHashPrefixInHex :: "string \<Rightarrow> nat \<Rightarrow> string"
  BuildUrl :: "string \<Rightarrow> string \<Rightarrow> ServerTypes \<Rightarrow> string"

definition kQueryPrefixBytes :: nat where
  "kQueryPrefixBytes = 2"

definition kPrefix :: string where
  "kPrefix = []"

text \<open>
  \<^verbatim>\<open>GetPublisherInfoUrl\<close> of request_publisher.cc; \<^verbatim>\<open>%s\<close> prints \<^verbatim>\<open>hash_prefix.data()\<close> up to
  its first NUL.
\<close>

definition GetPublisherInfoUrl :: "RequestUtil \<Rightarrow> string \<Rightarrow> string" where
  "GetPublisherInfoUrl util hash_prefix =
     BuildUrl util (''/prefix/'' @ takeWhile (\<lambda>c. c \<noteq> CHR 0x00) hash_prefix) kPrefix kPublisher"

text \<open>
  The state of a \<^verbatim>\<open>ServerPublisherFetcher\<close> and what it has done to its collaborators:
  \<^item> \<open>callback_map\<close>: the \<^verbatim>\<open>std::multimap\<close> from key to callback, as the list of its pairs
    in insertion order (equal keys keep that order in a multimap, and the code never
    iterates over different keys);
  \<^item> \<open>LoadURL_calls\<close>: the GET requests issued, each with the URL and the key bound into
    its \<^verbatim>\<open>OnFetchCompleted\<close> completion;
  \<^item> \<open>InsertServerPublisherInfo_calls\<close>: the cache-store writes issued, each with the record
    and the key bound into its completion;
  \<^item> \<open>objects\<close>: the records created by \<^verbatim>\<open>Clone()\<close>, addressed by position;
  \<^item> \<open>callback_runs\<close>: the callbacks run, each with the pointer it was given
    (\<^term>\<open>None\<close> for \<^verbatim>\<open>nullptr\<close>).
\<close>

record ServerPublisherFetcher =
  callback_map :: "(string \<times> callback) list"
  LoadURL_calls :: "(string \<times> string) list"
  InsertServerPublisherInfo_calls :: "(ServerPublisherInfo \<times> string) list"
  objects :: "ServerPublisherInfo list"
  callback_runs :: "(callback \<times> nat option) list"

definition multimap_count :: "'k \<Rightarrow> ('k \<times> 'v) list \<Rightarrow> nat" where
  "multimap_count k m = length (filter (\<lambda>kv. fst kv = k) m)"

definition equal_range :: "'k \<Rightarrow> ('k \<times> 'v) list \<Rightarrow> ('k \<times> 'v) list" where
  "equal_range k m = filter (\<lambda>kv. fst kv = k) m"

definition multimap_erase :: "'k \<Rightarrow> ('k \<times> 'v) list \<Rightarrow> ('k \<times> 'v) list" where
  "multimap_erase k m = filter (\<lambda>kv. fst kv \<noteq> k) m"

text \<open>\<^verbatim>\<open>ServerPublisherFetcher::Fetch\<close>.\<close>

definition Fetch ::
  "RequestUtil \<Rightarrow> string \<Rightarrow> callback \<Rightarrow> ServerPublisherFetcher \<Rightarrow> ServerPublisherFetcher" where
  "Fetch util key callback st =
     (let has_entry = multimap_count key (callback_map st) > 0;
          st1 = st\<lparr>callback_map := callback_map st @ [(key, callback)]\<rparr>
      in if has_entry then st1
         else
           let hex_prefix = GetHashPrefixInHex util key kQueryPrefixBytes;
               url = GetPublisherInfoUrl util hex_prefix
           in st1\<lparr>LoadURL_calls := LoadURL_calls st1 @ [(url, key)]\<rparr>)"

text \<open>\<^verbatim>\<open>ServerPublisherFetcher::GetCallbacks\<close>: the callbacks of the key, moved out of the map.\<close>

definition GetCallbacks ::
  "string \<Rightarrow> ServerPublisherFetcher \<Rightarrow> callback list \<times> ServerPublisherFetcher" where
  "GetCallbacks key st =
     (map snd (equal_range key (callback_map st)),
      st\<lparr>callback_map := multimap_erase key (callback_map st)\<rparr>)"

text \<open>\<^verbatim>\<open>server_info.Clone()\<close>: a new record object with the same contents.\<close>

definition Clone :: "ServerPublisherInfo \<Rightarrow> ServerPublisherFetcher \<Rightarrow> nat \<times> ServerPublisherFetcher" where
  "Clone server_info st = (length (objects st), st\<lparr>objects := objects st @ [server_info]\<rparr>)"

definition run_callback ::
  "callback \<Rightarrow> nat option \<Rightarrow> ServerPublisherFetcher \<Rightarrow> ServerPublisherFetcher" where
  "run_callback cb arg st = st\<lparr>callback_runs := callback_runs st @ [(cb, arg)]\<rparr>"

text \<open>The loop of \<^verbatim>\<open>RunCallbacks\<close> over the callback vector.\<close>

fun run_each ::
  "ServerPublisherInfo option \<Rightarrow> callback list \<Rightarrow> ServerPublisherFetcher \<Rightarrow> ServerPublisherFetcher" where
  "run_each server_info [] st = st"
| "run_each server_info (cb # cbs) st =
     run_each server_info cbs
       (case server_info of
          None \<Rightarrow> run_callback cb None st
        | Some i \<Rightarrow> (case Clone i st of (p, st') \<Rightarrow> run_callback cb (Some p) st'))"

text \<open>\<^verbatim>\<open>ServerPublisherFetcher::RunCallbacks\<close> (its \<^verbatim>\<open>DCHECK\<close> is a debug assertion).\<close>

definition RunCallbacks ::
  "string \<Rightarrow> ServerPublisherInfo option \<Rightarrow> ServerPublisherFetcher \<Rightarrow> ServerPublisherFetcher" where
  "RunCallbacks key server_info st =
     (case GetCallbacks key st of (callbacks, st1) \<Rightarrow> run_each server_info callbacks st1)"

text \<open>
  \<^verbatim>\<open>ServerPublisherFetcher::OnFetchCompleted\<close>, up to the call of
  \<^verbatim>\<open>InsertServerPublisherInfo\<close>, and the completion it passes to that call, which the store
  runs later with the result of the write.
\<close>

definition OnFetchCompleted ::
  "WireLibrary \<Rightarrow> Time \<Rightarrow> string \<Rightarrow> UrlResponse \<Rightarrow> ServerPublisherFetcher \<Rightarrow> ServerPublisherFetcher" where
  "OnFetchCompleted lib now key response st =
     (case ParseResponse lib now key (status_code response) (body response) of
        None \<Rightarrow> RunCallbacks key None st
      | Some server_info \<Rightarrow>
          st\<lparr>InsertServerPublisherInfo_calls :=
               InsertServerPublisherInfo_calls st @ [(server_info, key)]\<rparr>)"

definition OnFetchCompleted_lambda ::
  "string \<Rightarrow> ServerPublisherInfo \<Rightarrow> Result \<Rightarrow> ServerPublisherFetcher \<Rightarrow> ServerPublisherFetcher" where
  "OnFetchCompleted_lambda key shared_info result st =
     RunCallbacks key (Some shared_info) st"

text \<open>
  The callbacks waiting for a key, in the order \<^verbatim>\<open>RunCallbacks\<close> runs them. This function
  is not part of the code: the properties below are stated with it.
\<close>

definition waiters :: "string \<Rightarrow> ServerPublisherFetcher \<Rightarrow> callback list" where
  "waiters key st = map snd (equal_range key (callback_map st))"

section \<open>Batch status refresher\<close>

text \<open>
  \<^verbatim>\<open>struct RefreshTaskInfo\<close>: the ledger, the map (the field \<^verbatim>\<open>map\<close>), and the iterator
  \<^verbatim>\<open>current\<close> as a position in the map, \<open>length\<close> of the map for \<^verbatim>\<open>map.end()\<close>. The
  two logs record the keys passed to \<^verbatim>\<open>SearchPublisherList\<close> and to \<^verbatim>\<open>RefreshPublisher\<close>.
  The \<^verbatim>\<open>callback\<close> field is the continuation of the scan: the scan returns where the code
  calls it, and its argument is the map of the task returned.
\<close>

record RefreshTaskInfo =
  ledger :: LedgerImpl
  task_map :: PublisherStatusMap
  current :: nat
  SearchPublisherList_calls :: "string list"
  RefreshPublisher_calls :: "string list"

text \<open>\<^verbatim>\<open>std::find_if(first, last, pred)\<close> with \<open>last\<close> the end of the list.\<close>

function find_if :: "('a \<Rightarrow> bool) \<Rightarrow> 'a list \<Rightarrow> nat \<Rightarrow> nat" where
  "find_if pred xs first =
     (if first < length xs
      then (if pred (xs ! first) then first else find_if pred xs (Suc first))
      else length xs)"
  by pat_completeness auto
termination
  by (relation "measure (\<lambda>(pred, xs, first). length xs - first)") auto

declare find_if.simps [simp del]

lemma find_if_bounds:
  "find_if pred xs first \<noteq> length xs \<Longrightarrow>
   first \<le> find_if pred xs first \<and> find_if pred xs first < length xs"
proof (induction pred xs first rule: find_if.induct)
  case (1 pred xs first)
  show ?case
  proof (cases "first < length xs \<and> \<not> pred (xs ! first)")
    case True
    then have eq: "find_if pred xs first = find_if pred xs (Suc first)"
      by (subst find_if.simps) simp
    with "1.prems" have "find_if pred xs (Suc first) \<noteq> length xs" by simp
    with True "1.IH" have "Suc first \<le> find_if pred xs (Suc first) \<and>
        find_if pred xs (Suc first) < length xs" by simp
    with eq show ?thesis by simp
  next
    case False
    have "find_if pred xs first = (if first < length xs then first else length xs)"
      by (subst find_if.simps) (use False in auto)
    with "1.prems" show ?thesis
      by (auto split: if_splits)
  qed
qed

text \<open>The predicate \<^verbatim>\<open>RefreshNext\<close> passes to \<^verbatim>\<open>std::find_if\<close>.\<close>

definition expired_entry :: "LedgerImpl \<Rightarrow> string \<times> PublisherStatusData \<Rightarrow> bool" where
  "expired_entry l key_value =
     ShouldFetchServerPublisherInfo l
       (FromDoubleT (PublisherStatusData.updated_at (snd key_value)))"

text \<open>
  \<^verbatim>\<open>RefreshNext\<close>. The two nested completions are run with the answers of the ledger's
  collaborators: the scan is sequential, and each key is asked about at most once.
\<close>

function RefreshNext :: "RefreshTaskInfo \<Rightarrow> RefreshTaskInfo" where
  "RefreshNext task_info =
     (let cur = find_if (expired_entry (ledger task_info))
                  (task_map task_info) (current task_info);
          t1 = task_info\<lparr>current := cur\<rparr>
      in if cur = length (task_map t1) then t1
         else
           let key = fst (task_map t1 ! cur);
               t2 = t1\<lparr>SearchPublisherList_calls := SearchPublisherList_calls t1 @ [key]\<rparr>
           in if \<not> SearchPublisherList (ledger t2) key
              then RefreshNext (t2\<lparr>current := cur + 1\<rparr>)
              else
                let t3 = t2\<lparr>RefreshPublisher_calls := RefreshPublisher_calls t2 @ [key]\<rparr>;
                    status = RefreshPublisher (ledger t3) key;
                    t4 = t3\<lparr>task_map := (task_map t3)
                           [cur := (key, (snd (task_map t3 ! cur))
                                           \<lparr>PublisherStatusData.status := status\<rparr>)]\<rparr>
                in RefreshNext (t4\<lparr>current := cur + 1\<rparr>))"
  by pat_completeness auto
termination
proof (relation "measure (\<lambda>t. length (task_map t) - current t)")
  show "wf (measure (\<lambda>t. length (task_map t) - current t))" by simp
next
  fix task_info :: RefreshTaskInfo and cur t1 key t2
  assume "cur = find_if (expired_entry (ledger task_info))
            (task_map task_info) (current task_info)"
    and "t1 = task_info\<lparr>current := cur\<rparr>"
    and "cur \<noteq> length (task_map t1)"
    and "t2 = t1\<lparr>SearchPublisherList_calls := SearchPublisherList_calls t1 @ [key]\<rparr>"
  then have "current task_info \<le> cur \<and> cur < length (task_map task_info)"
    using find_if_bounds by simp
  then show "(t2\<lparr>current := cur + 1\<rparr>, task_info)
      \<in> measure (\<lambda>t. length (task_map t) - current t)"
    using \<open>t1 = task_info\<lparr>current := cur\<rparr>\<close>
      \<open>t2 = t1\<lparr>SearchPublisherList_calls := SearchPublisherList_calls t1 @ [key]\<rparr>\<close>
    by auto
next
  fix task_info :: RefreshTaskInfo and cur t1 key t2 t3 status t4
  assume "cur = find_if (expired_entry (ledger task_info))
            (task_map task_info) (current task_info)"
    and "t1 = task_info\<lparr>current := cur\<rparr>"
    and "cur \<noteq> length (task_map t1)"
    and "t2 = t1\<lparr>SearchPublisherList_calls := SearchPublisherList_calls t1 @ [key]\<rparr>"
    and "t3 = t2\<lparr>RefreshPublisher_calls := RefreshPublisher_calls t2 @ [key]\<rparr>"
    and "t4 = t3\<lparr>task_map := (task_map t3)
                  [cur := (key, (snd (task_map t3 ! cur))
                                  \<lparr>PublisherStatusData.status := status\<rparr>)]\<rparr>"
  then show "(t4\<lparr>current := cur + 1\<rparr>, task_info)
      \<in> measure (\<lambda>t. length (task_map t) - current t)"
    using find_if_bounds
      [of "expired_entry (ledger task_info)" "task_map task_info" "current task_info"]
    by auto
qed

declare RefreshNext.simps [simp del]

text \<open>
  \<^verbatim>\<open>RefreshPublisherStatus(ledger, status_map, callback)\<close>: the task starts at
  \<^verbatim>\<open>map.begin()\<close>; the callback receives the map of the task returned.
\<close>

definition RefreshPublisherStatus :: "LedgerImpl \<Rightarrow> PublisherStatusMap \<Rightarrow> RefreshTaskInfo" where
  "RefreshPublisherStatus ledger' status_map =
     RefreshNext \<lparr>ledger = ledger', task_map = status_map, current = 0,
       SearchPublisherList_calls = [], RefreshPublisher_calls = []\<rparr>"

subsection \<open>The two list adapters\<close>

text \<open>
  Modelled from the spec: \<^verbatim>\<open>ledger::PublisherInfo\<close> and \<^verbatim>\<open>ledger::PendingContributionInfo\<close>
  (mojom structures): the key and the status the adapters use, and the fields they do not
  touch as one value. The field \<^verbatim>\<open>id\<close> is written \<open>id'\<close>.
\<close>

record 'a PublisherInfo =
  id' :: string
  status :: PublisherStatus
  other_fields :: 'a

record 'a PendingContributionInfo =
  publisher_key :: string
  status :: PublisherStatus
  other_fields :: 'a

text \<open>
  \<^verbatim>\<open>std::map::operator[]\<close> on a \<^verbatim>\<open>PublisherStatusMap\<close>: the value at the key and the map
  after the call. A key that is absent is inserted with a value-initialized
  \<^verbatim>\<open>PublisherStatusData\<close>: every member zero, the status the enumerator 0.
\<close>

definition PublisherStatusData_zero :: PublisherStatusData where
  "PublisherStatusData_zero =
     \<lparr>PublisherStatusData.status = NOT_VERIFIED, PublisherStatusData.updated_at = 0\<rparr>"

definition map_subscript ::
  "PublisherStatusMap \<Rightarrow> string \<Rightarrow> PublisherStatusData \<times> PublisherStatusMap" where
  "map_subscript m k =
     (case map_of m k of
        Some d \<Rightarrow> (d, m)
      | None \<Rightarrow> (PublisherStatusData_zero, map_insert (k, PublisherStatusData_zero) m))"

text \<open>
  The loops of the two completions, over the by-value \<^verbatim>\<open>status_map\<close> and the shared
  list: the map as the loop leaves it, and the list passed on.
\<close>

fun PublisherInfoList_loop ::
  "PublisherStatusMap \<Rightarrow> 'a PublisherInfo list \<Rightarrow> PublisherStatusMap \<times> 'a PublisherInfo list" where
  "PublisherInfoList_loop status_map [] = (status_map, [])"
| "PublisherInfoList_loop status_map (info # rest) =
     (case map_subscript status_map (id' info) of
        (d, m1) \<Rightarrow>
          (case PublisherInfoList_loop m1 rest of
             (m2, rest') \<Rightarrow>
               (m2, info\<lparr>PublisherInfo.status := PublisherStatusData.status d\<rparr> # rest')))"

fun PendingContributionInfoList_loop ::
  "PublisherStatusMap \<Rightarrow> 'a PendingContributionInfo list
     \<Rightarrow> PublisherStatusMap \<times> 'a PendingContributionInfo list" where
  "PendingContributionInfoList_loop status_map [] = (status_map, [])"
| "PendingContributionInfoList_loop status_map (info # rest) =
     (case map_subscript status_map (PendingContributionInfo.publisher_key info) of
        (d, m1) \<Rightarrow>
          (case PendingContributionInfoList_loop m1 rest of
             (m2, rest') \<Rightarrow>
               (m2, info\<lparr>PendingContributionInfo.status := PublisherStatusData.status d\<rparr> # rest')))"

text \<open>
  The two overloads of \<^verbatim>\<open>RefreshPublisherStatus\<close> that take a list: the list their callback
  receives.
\<close>

definition RefreshPublisherStatus_PublisherInfoList ::
  "LedgerImpl \<Rightarrow> PublisherStatusMap \<Rightarrow> 'a PublisherInfo list \<Rightarrow> 'a PublisherInfo list" where
  "RefreshPublisherStatus_PublisherInfoList ledger' status_map info_list =
     snd (PublisherInfoList_loop (task_map (RefreshPublisherStatus ledger' status_map)) info_list)"

definition RefreshPublisherStatus_PendingContributionInfoList ::
  "LedgerImpl \<Rightarrow> PublisherStatusMap \<Rightarrow> 'a PendingContributionInfo list
     \<Rightarrow> 'a PendingContributionInfo list" where
  "RefreshPublisherStatus_PendingContributionInfoList ledger' status_map info_list =
     snd (PendingContributionInfoList_loop
            (task_map (RefreshPublisherStatus ledger' status_map)) info_list)"

section \<open>Closed forms used in the proofs\<close>

text \<open>
  These functions are not part of the code: they describe, in one step, what its loops
  are proved to compute. \<open>refreshed_entry\<close> is the entry the scan leaves for an entry
  of the map; \<open>looked_up_status\<close> is the status the adapters' loops write for a key and
  \<open>map_after_lookups\<close> the lookup in the map they leave, given the map they start from
  and the keys they look up.
\<close>

definition refreshed_entry ::
  "LedgerImpl \<Rightarrow> string \<times> PublisherStatusData \<Rightarrow> string \<times> PublisherStatusData" where
  "refreshed_entry l key_value =
     (if expired_entry l key_value \<and> SearchPublisherList l (fst key_value)
      then (fst key_value,
            (snd key_value)\<lparr>PublisherStatusData.status := RefreshPublisher l (fst key_value)\<rparr>)
      else key_value)"

definition looked_up_status :: "PublisherStatusMap \<Rightarrow> string \<Rightarrow> PublisherStatus" where
  "looked_up_status m k =
     (case map_of m k of
        Some d \<Rightarrow> PublisherStatusData.status d
      | None \<Rightarrow> PublisherStatusData.status PublisherStatusData_zero)"

definition map_after_lookups ::
  "PublisherStatusMap \<Rightarrow> string set \<Rightarrow> string \<Rightarrow> PublisherStatusData option" where
  "map_after_lookups m ks k =
     (case map_of m k of
        Some d \<Rightarrow> Some d
      | None \<Rightarrow> if k \<in> ks then Some PublisherStatusData_zero else None)"

section \<open>Properties of the padding\<close>

lemma ReadBigEndian_WriteBigEndian: "ReadBigEndian (WriteBigEndian w @ rest) = w"
  unfolding ReadBigEndian_def WriteBigEndian_def
  apply simp
  apply (rule bit_eqI)
  subgoal for n
    by (cases "n < 8"; cases "n < 16"; cases "n < 24"; simp add: bit_simps; auto)
  done

text \<open>
  C3: \<^verbatim>\<open>RemovePadding\<close> fails on a buffer shorter than 4 bytes, and fails when the
  big-endian length in the first 4 bytes is larger than the number of bytes after them.
  Otherwise it succeeds, and the view is exactly that many bytes right after the header:
  on a buffer made of the length of a payload, the payload and any padding, the view is
  the payload.
\<close>

theorem RemovePadding_spec:
  "(length buf < 4 \<longrightarrow> fst (RemovePadding (Some buf)) = False) \<and>
   (4 \<le> length buf \<and> length buf - 4 < unat (ReadBigEndian buf) \<longrightarrow>
      fst (RemovePadding (Some buf)) = False) \<and>
   (4 \<le> length buf \<and> unat (ReadBigEndian buf) \<le> length buf - 4 \<longrightarrow>
      RemovePadding (Some buf) =
        (True, Some (take (unat (ReadBigEndian buf)) (drop 4 buf)))) \<and>
   (length payload < 2 ^ 32 \<longrightarrow>
      RemovePadding (Some (WriteBigEndian (word_of_nat (length payload)) @ payload @ pad)) =
        (True, Some payload))"
proof (intro conjI impI)
  assume "length buf < 4"
  then show "fst (RemovePadding (Some buf)) = False"
    by (simp add: RemovePadding_def)
next
  assume "4 \<le> length buf \<and> length buf - 4 < unat (ReadBigEndian buf)"
  then show "fst (RemovePadding (Some buf)) = False"
    by (simp add: RemovePadding_def Let_def)
next
  assume "4 \<le> length buf \<and> unat (ReadBigEndian buf) \<le> length buf - 4"
  then have a: "4 \<le> length buf" and b: "unat (ReadBigEndian buf) \<le> length buf - 4"
    by simp_all
  show "RemovePadding (Some buf) =
      (True, Some (take (unat (ReadBigEndian buf)) (drop 4 buf)))"
    using a b by (simp add: RemovePadding_def Let_def)
next
  assume small: "length payload < 2 ^ 32"
  have len: "length (WriteBigEndian (word_of_nat (length payload))) = 4"
    by (simp add: WriteBigEndian_def)
  have n: "unat (word_of_nat (length payload) :: 32 word) = length payload"
    using small by (simp add: unat_of_nat take_bit_nat_eq_self)
  show "RemovePadding (Some (WriteBigEndian (word_of_nat (length payload)) @ payload @ pad)) =
      (True, Some payload)"
    by (simp add: RemovePadding_def Let_def ReadBigEndian_WriteBigEndian len n)
qed

theorem RemovePadding_spec_witness:
  "fst (RemovePadding (Some [0, 0, 1])) = False \<and>
   fst (RemovePadding (Some [0, 0, 0, 3, 65, 66])) = False \<and>
   RemovePadding (Some [0, 0, 0, 2, 65, 66, 67, 68]) = (True, Some [65, 66]) \<and>
   RemovePadding (Some (WriteBigEndian 2 @ [65, 66] @ [0, 0, 0])) = (True, Some [65, 66])"
  using RemovePadding_spec [of "[0, 0, 1]" "[65, 66]" "[0, 0, 0]"]
    RemovePadding_spec [of "[0, 0, 0, 3, 65, 66]" "[]" "[]"]
    RemovePadding_spec [of "[0, 0, 0, 2, 65, 66, 67, 68]" "[]" "[]"]
  by (simp add: ReadBigEndian_def)

section \<open>Properties of the cache expiry\<close>

text \<open>
  C1, as the claim states it, fails: with a lifetime of 3600 seconds, a timestamp ten
  seconds in the future is not expired.
\<close>

theorem IsExpired_future_counterexample:
  "(1000000 :: int) - 11000000 < 0 \<and>
   IsExpired \<lparr>GetUint64Option = (\<lambda>name. 3600), ShouldFetchServerPublisherInfo = (\<lambda>t. False),
     SearchPublisherList = (\<lambda>k. False), RefreshPublisher = (\<lambda>k. NOT_VERIFIED)\<rparr>
     1000000 11000000 = False"
  by (simp add: IsExpired_def GetCacheExpiryInSeconds_def InSeconds_def)

text \<open>
  C1, amended: for a \<open>last_update_time\<close> strictly in the future, \<^verbatim>\<open>IsExpired\<close> returns
  false (the record is treated as not expired) whenever the lifetime
  \<^verbatim>\<open>GetCacheExpiryInSeconds\<close> returns is not negative.
\<close>

theorem IsExpired_future:
  assumes "now - last_update_time < 0" and "0 \<le> GetCacheExpiryInSeconds ledger'"
  shows "IsExpired ledger' now last_update_time = False"
proof -
  have "InSeconds (now - last_update_time) \<le> 0"
    using assms(1) by (simp add: InSeconds_def)
  with assms(2) show ?thesis
    by (simp add: IsExpired_def)
qed

theorem IsExpired_future_witness:
  "GetCacheExpiryInSeconds \<lparr>GetUint64Option = (\<lambda>name. 3600), ShouldFetchServerPublisherInfo = (\<lambda>t. False),
     SearchPublisherList = (\<lambda>k. False), RefreshPublisher = (\<lambda>k. NOT_VERIFIED)\<rparr> = 3600 \<and>
   IsExpired \<lparr>GetUint64Option = (\<lambda>name. 3600), ShouldFetchServerPublisherInfo = (\<lambda>t. False),
     SearchPublisherList = (\<lambda>k. False), RefreshPublisher = (\<lambda>k. NOT_VERIFIED)\<rparr>
     0 7200000000 = False \<and>
   IsExpired \<lparr>GetUint64Option = (\<lambda>name. 3600), ShouldFetchServerPublisherInfo = (\<lambda>t. False),
     SearchPublisherList = (\<lambda>k. False), RefreshPublisher = (\<lambda>k. NOT_VERIFIED)\<rparr>
     0 500000 = False"
  using IsExpired_future [of 0 7200000000 "\<lparr>GetUint64Option = (\<lambda>name. 3600), ShouldFetchServerPublisherInfo = (\<lambda>t. False),
     SearchPublisherList = (\<lambda>k. False), RefreshPublisher = (\<lambda>k. NOT_VERIFIED)\<rparr>"]
    IsExpired_future [of 0 500000 "\<lparr>GetUint64Option = (\<lambda>name. 3600), ShouldFetchServerPublisherInfo = (\<lambda>t. False),
     SearchPublisherList = (\<lambda>k. False), RefreshPublisher = (\<lambda>k. NOT_VERIFIED)\<rparr>"]
  by (simp add: GetCacheExpiryInSeconds_def)

text \<open>
  C8: for an age that is not negative, \<^verbatim>\<open>IsExpired\<close> returns true iff the whole seconds
  of the age are strictly more than the lifetime \<^verbatim>\<open>GetCacheExpiryInSeconds\<close> returns (an
  age equal to it is not expired, one second more is), that lifetime is the publisher
  prefix list refresh interval option read as an \<^verbatim>\<open>int64_t\<close>, and \<^verbatim>\<open>IsExpired\<close> of a null
  record is true.
\<close>

theorem IsExpired_ttl:
  assumes "0 \<le> now - last_update_time"
  shows "(IsExpired ledger' now last_update_time \<longleftrightarrow>
            GetCacheExpiryInSeconds ledger' < InSeconds (now - last_update_time)) \<and>
         (InSeconds (now - last_update_time) = GetCacheExpiryInSeconds ledger' \<longrightarrow>
            \<not> IsExpired ledger' now last_update_time) \<and>
         (InSeconds (now - last_update_time) = GetCacheExpiryInSeconds ledger' + 1 \<longrightarrow>
            IsExpired ledger' now last_update_time) \<and>
         InSeconds (now - last_update_time) = (now - last_update_time) div 1000000 \<and>
         GetCacheExpiryInSeconds ledger' =
           sint (GetUint64Option ledger' kOptionPublisherListRefreshInterval) \<and>
         IsExpired_info ledger' now None"
  using assms
  by (simp add: IsExpired_def InSeconds_def IsExpired_info_def GetCacheExpiryInSeconds_def)

theorem IsExpired_ttl_witness:
  "\<not> IsExpired \<lparr>GetUint64Option = (\<lambda>name. 3600), ShouldFetchServerPublisherInfo = (\<lambda>t. False),
     SearchPublisherList = (\<lambda>k. False), RefreshPublisher = (\<lambda>k. NOT_VERIFIED)\<rparr>
     3600999999 0 \<and>
   IsExpired \<lparr>GetUint64Option = (\<lambda>name. 3600), ShouldFetchServerPublisherInfo = (\<lambda>t. False),
     SearchPublisherList = (\<lambda>k. False), RefreshPublisher = (\<lambda>k. NOT_VERIFIED)\<rparr>
     3601000000 0"
  using IsExpired_ttl [of 3600999999 0 "\<lparr>GetUint64Option = (\<lambda>name. 3600), ShouldFetchServerPublisherInfo = (\<lambda>t. False),
     SearchPublisherList = (\<lambda>k. False), RefreshPublisher = (\<lambda>k. NOT_VERIFIED)\<rparr>"]
    IsExpired_ttl [of 3601000000 0 "\<lparr>GetUint64Option = (\<lambda>name. 3600), ShouldFetchServerPublisherInfo = (\<lambda>t. False),
     SearchPublisherList = (\<lambda>k. False), RefreshPublisher = (\<lambda>k. NOT_VERIFIED)\<rparr>"]
  by (simp add: GetCacheExpiryInSeconds_def InSeconds_def)

section \<open>Properties of the wire codec\<close>

lemma ServerPublisherInfoFromMessage_key:
  "ServerPublisherInfoFromMessage now message key = Some server_info \<Longrightarrow>
   ServerPublisherInfo.publisher_key server_info = key"
  by (induction message) (auto simp: Let_def split: if_splits option.splits)

lemma GetServerInfoForEmptyResponse_eq:
  "GetServerInfoForEmptyResponse now key =
     \<lparr>ServerPublisherInfo.publisher_key = key, ServerPublisherInfo.status = NOT_VERIFIED, address = [],
      ServerPublisherInfo.updated_at = ToDoubleT_uint64 now, banner = None\<rparr>"
  by (simp add: GetServerInfoForEmptyResponse_def ServerPublisherInfo_New_def)

lemma ParseResponse_not_found:
  "ParseResponse lib now key HTTP_NOT_FOUND response =
     Some (GetServerInfoForEmptyResponse now key)"
  by (simp add: ParseResponse_def)

lemma ParseResponse_failure:
  assumes "code \<noteq> HTTP_NOT_FOUND" and "code \<noteq> HTTP_OK \<or> response = []"
  shows "ParseResponse lib now key code response = None"
  using assms by (auto simp: ParseResponse_def)

text \<open>
  C10: every record \<^verbatim>\<open>ParseResponse\<close> returns, decoded from a matching entry or made for
  a response without one, has the requested key as its \<^verbatim>\<open>publisher_key\<close>.
\<close>

theorem ParseResponse_publisher_key:
  assumes "ParseResponse lib now key code response = Some server_info"
  shows "ServerPublisherInfo.publisher_key server_info = key"
proof (cases "code = HTTP_NOT_FOUND")
  case True
  with assms have "server_info = GetServerInfoForEmptyResponse now key"
    by (simp add: ParseResponse_def)
  then show ?thesis
    by (simp add: GetServerInfoForEmptyResponse_eq)
next
  case False
  with assms obtain message where
    found: "ServerPublisherInfoFromMessage now message key = Some server_info \<or>
            (ServerPublisherInfoFromMessage now message key = None \<and>
             server_info = GetServerInfoForEmptyResponse now key)"
    by (auto simp: ParseResponse_def Let_def
             split: if_splits prod.splits bool.splits option.splits)
  then show ?thesis
    by (auto simp: GetServerInfoForEmptyResponse_eq dest: ServerPublisherInfoFromMessage_key)
qed

theorem ParseResponse_publisher_key_witness:
  "ParseResponse
     \<lparr>DecodeString = (\<lambda>payload. None),
      ParseFromString = (\<lambda>s. Some
        [\<lparr>channel_identifier = ''other'', wallet_connected_state = UPHOLD_ACCOUNT_NO_KYC,
          wallet_address = ''w1'', site_banner_details = None\<rparr>,
         \<lparr>channel_identifier = ''pub'', wallet_connected_state = UPHOLD_ACCOUNT_KYC,
          wallet_address = ''w2'', site_banner_details = None\<rparr>])\<rparr>
     5000000 ''pub'' 200 [0, 0, 0, 1, 10, 0] =
   Some \<lparr>ServerPublisherInfo.publisher_key = ''pub'', ServerPublisherInfo.status = VERIFIED, address = ''w2'',
         ServerPublisherInfo.updated_at = 5, banner = None\<rparr> \<and>
   ServerPublisherInfo.publisher_key
     \<lparr>ServerPublisherInfo.publisher_key = ''pub'', ServerPublisherInfo.status = VERIFIED, address = ''w2'',
      ServerPublisherInfo.updated_at = 5, banner = None\<rparr> = ''pub''"
proof -
  have run: "ParseResponse
     \<lparr>DecodeString = (\<lambda>payload. None),
      ParseFromString = (\<lambda>s. Some
        [\<lparr>channel_identifier = ''other'', wallet_connected_state = UPHOLD_ACCOUNT_NO_KYC,
          wallet_address = ''w1'', site_banner_details = None\<rparr>,
         \<lparr>channel_identifier = ''pub'', wallet_connected_state = UPHOLD_ACCOUNT_KYC,
          wallet_address = ''w2'', site_banner_details = None\<rparr>])\<rparr>
     5000000 ''pub'' 200 [0, 0, 0, 1, 10, 0] =
   Some \<lparr>ServerPublisherInfo.publisher_key = ''pub'', ServerPublisherInfo.status = VERIFIED, address = ''w2'',
         ServerPublisherInfo.updated_at = 5, banner = None\<rparr>"
    by (simp add: ParseResponse_def HTTP_OK_def HTTP_NOT_FOUND_def RemovePadding_def
        ReadBigEndian_def DecompressMessage_def ServerPublisherInfo_New_def
        ToDoubleT_uint64_def Let_def)
  from ParseResponse_publisher_key [OF run] run show ?thesis by simp
qed

section \<open>Properties of the fetcher\<close>

lemma run_each_None:
  "run_each None cbs st = st\<lparr>callback_runs := callback_runs st @ map (\<lambda>cb. (cb, None)) cbs\<rparr>"
  by (induction cbs arbitrary: st) (simp_all add: run_callback_def)

lemma run_each_Some:
  "run_each (Some i) cbs st =
     st\<lparr>objects := objects st @ replicate (length cbs) i,
        callback_runs := callback_runs st @
          zip cbs (map Some [length (objects st) ..< length (objects st) + length cbs])\<rparr>"
proof (induction cbs arbitrary: st)
  case Nil
  then show ?case by simp
next
  case (Cons cb cbs)
  have "[length (objects st) ..< length (objects st) + length (cb # cbs)] =
        length (objects st) # [Suc (length (objects st)) ..< Suc (length (objects st)) + length cbs]"
    by (subst upt_rec) simp
  then show ?case
    by (simp add: Cons.IH Clone_def run_callback_def replicate_app_Cons_same)
qed

lemma RunCallbacks_None:
  "RunCallbacks key None st =
     st\<lparr>callback_map := multimap_erase key (callback_map st),
        callback_runs := callback_runs st @ map (\<lambda>cb. (cb, None)) (waiters key st)\<rparr>"
  by (simp add: RunCallbacks_def GetCallbacks_def run_each_None waiters_def)

lemma RunCallbacks_Some:
  "RunCallbacks key (Some i) st =
     st\<lparr>callback_map := multimap_erase key (callback_map st),
        objects := objects st @ replicate (length (waiters key st)) i,
        callback_runs := callback_runs st @
          zip (waiters key st)
            (map Some [length (objects st) ..< length (objects st) + length (waiters key st)])\<rparr>"
  by (simp add: RunCallbacks_def GetCallbacks_def run_each_Some waiters_def)

lemma waiters_erase: "map snd (equal_range key (multimap_erase key m)) = []"
  by (induction m) (auto simp: equal_range_def multimap_erase_def)

lemma Fetch_in_flight_eq:
  "0 < multimap_count key (callback_map st) \<Longrightarrow>
   Fetch util key cb st = st\<lparr>callback_map := callback_map st @ [(key, cb)]\<rparr>"
  by (simp add: Fetch_def Let_def)

lemma waiters_append:
  "waiters key (st\<lparr>callback_map := callback_map st @ [(key, cb)]\<rparr>) = waiters key st @ [cb]"
  by (simp add: waiters_def equal_range_def)

lemma erase_append:
  "multimap_erase key (m @ [(key, cb)]) = multimap_erase key m"
  by (simp add: multimap_erase_def)

text \<open>
  C6: a response whose status code is neither OK nor NotFound, or whose body is empty with
  the status OK, is a hard failure: \<^verbatim>\<open>ParseResponse\<close> returns no record, and
  \<^verbatim>\<open>OnFetchCompleted\<close> issues no store write, makes no record and runs every callback
  registered for the key with null, removing them from the table.
\<close>

theorem OnFetchCompleted_failure:
  assumes "(status_code response \<noteq> HTTP_OK \<and> status_code response \<noteq> HTTP_NOT_FOUND) \<or>
           (status_code response = HTTP_OK \<and> body response = [])"
  shows "ParseResponse lib now key (status_code response) (body response) = None \<and>
         OnFetchCompleted lib now key response st =
           st\<lparr>callback_map := multimap_erase key (callback_map st),
              callback_runs := callback_runs st @ map (\<lambda>cb. (cb, None)) (waiters key st)\<rparr> \<and>
         InsertServerPublisherInfo_calls (OnFetchCompleted lib now key response st) =
           InsertServerPublisherInfo_calls st \<and>
         waiters key (OnFetchCompleted lib now key response st) = []"
proof -
  have none: "ParseResponse lib now key (status_code response) (body response) = None"
    using assms by (intro ParseResponse_failure) (auto simp: HTTP_OK_def HTTP_NOT_FOUND_def)
  then have eq: "OnFetchCompleted lib now key response st = RunCallbacks key None st"
    by (simp add: OnFetchCompleted_def)
  show ?thesis
    by (simp add: none eq RunCallbacks_None waiters_def waiters_erase)
qed

theorem OnFetchCompleted_failure_witness:
  "ParseResponse \<lparr>DecodeString = (\<lambda>payload. None), ParseFromString = (\<lambda>s. None)\<rparr>
     0 ''pub'' 500 [1, 2, 3] = None \<and>
   OnFetchCompleted \<lparr>DecodeString = (\<lambda>payload. None), ParseFromString = (\<lambda>s. None)\<rparr>
     0 ''pub'' \<lparr>status_code = 500, body = [1, 2, 3]\<rparr>
     \<lparr>callback_map = [(''pub'', 1), (''other'', 2), (''pub'', 3)],
      LoadURL_calls = [(''u1'', ''pub''), (''u2'', ''other'')],
      InsertServerPublisherInfo_calls = [], objects = [], callback_runs = []\<rparr> =
     \<lparr>callback_map = [(''other'', 2)],
      LoadURL_calls = [(''u1'', ''pub''), (''u2'', ''other'')],
      InsertServerPublisherInfo_calls = [], objects = [],
      callback_runs = [(1, None), (3, None)]\<rparr> \<and>
   OnFetchCompleted \<lparr>DecodeString = (\<lambda>payload. None), ParseFromString = (\<lambda>s. None)\<rparr>
     0 ''pub'' \<lparr>status_code = 200, body = []\<rparr>
     \<lparr>callback_map = [(''pub'', 1), (''other'', 2), (''pub'', 3)],
      LoadURL_calls = [(''u1'', ''pub''), (''u2'', ''other'')],
      InsertServerPublisherInfo_calls = [], objects = [], callback_runs = []\<rparr> =
     \<lparr>callback_map = [(''other'', 2)],
      LoadURL_calls = [(''u1'', ''pub''), (''u2'', ''other'')],
      InsertServerPublisherInfo_calls = [], objects = [],
      callback_runs = [(1, None), (3, None)]\<rparr>"
  using OnFetchCompleted_failure
      [of "\<lparr>status_code = 500, body = [1, 2, 3]\<rparr>"
          "\<lparr>DecodeString = (\<lambda>payload. None), ParseFromString = (\<lambda>s. None)\<rparr>" 0 "''pub''"
          "\<lparr>callback_map = [(''pub'', 1), (''other'', 2), (''pub'', 3)],
            LoadURL_calls = [(''u1'', ''pub''), (''u2'', ''other'')],
            InsertServerPublisherInfo_calls = [], objects = [], callback_runs = []\<rparr>"]
    OnFetchCompleted_failure
      [of "\<lparr>status_code = 200, body = []\<rparr>"
          "\<lparr>DecodeString = (\<lambda>payload. None), ParseFromString = (\<lambda>s. None)\<rparr>" 0 "''pub''"
          "\<lparr>callback_map = [(''pub'', 1), (''other'', 2), (''pub'', 3)],
            LoadURL_calls = [(''u1'', ''pub''), (''u2'', ''other'')],
            InsertServerPublisherInfo_calls = [], objects = [], callback_runs = []\<rparr>"]
  by (simp add: HTTP_OK_def HTTP_NOT_FOUND_def waiters_def equal_range_def multimap_erase_def)

lemma OnFetchCompleted_success_aux:
  assumes "ParseResponse lib now key (status_code response) (body response) = Some server_info"
  shows "OnFetchCompleted_lambda key server_info result
             (OnFetchCompleted lib now key response st) =
           st\<lparr>callback_map := multimap_erase key (callback_map st),
              InsertServerPublisherInfo_calls :=
                InsertServerPublisherInfo_calls st @ [(server_info, key)],
              objects := objects st @ replicate (length (waiters key st)) server_info,
              callback_runs := callback_runs st @
                zip (waiters key st)
                  (map Some [length (objects st) ..<
                             length (objects st) + length (waiters key st)])\<rparr>"
  using assms
  by (simp add: OnFetchCompleted_def OnFetchCompleted_lambda_def RunCallbacks_Some waiters_def)

text \<open>
  C7: when \<^verbatim>\<open>ParseResponse\<close> returns a record, \<^verbatim>\<open>OnFetchCompleted\<close> issues exactly one
  store write for it, whatever the number of waiters, and runs no callback yet. The
  completion of the write, with any result, then gives every waiter of the key a copy of
  its own of the record, and issues no further write.
\<close>

theorem OnFetchCompleted_success:
  assumes "ParseResponse lib now key (status_code response) (body response) = Some server_info"
  shows "OnFetchCompleted lib now key response st =
           st\<lparr>InsertServerPublisherInfo_calls :=
                InsertServerPublisherInfo_calls st @ [(server_info, key)]\<rparr> \<and>
         OnFetchCompleted_lambda key server_info result
             (OnFetchCompleted lib now key response st) =
           st\<lparr>callback_map := multimap_erase key (callback_map st),
              InsertServerPublisherInfo_calls :=
                InsertServerPublisherInfo_calls st @ [(server_info, key)],
              objects := objects st @ replicate (length (waiters key st)) server_info,
              callback_runs := callback_runs st @
                zip (waiters key st)
                  (map Some [length (objects st) ..<
                             length (objects st) + length (waiters key st)])\<rparr> \<and>
         (\<forall>i < length (waiters key st).
            callback_runs (OnFetchCompleted_lambda key server_info result
                (OnFetchCompleted lib now key response st)) ! (length (callback_runs st) + i) =
              (waiters key st ! i, Some (length (objects st) + i)) \<and>
            objects (OnFetchCompleted_lambda key server_info result
                (OnFetchCompleted lib now key response st)) ! (length (objects st) + i) =
              server_info)"
proof -
  have eq: "OnFetchCompleted lib now key response st =
      st\<lparr>InsertServerPublisherInfo_calls :=
           InsertServerPublisherInfo_calls st @ [(server_info, key)]\<rparr>"
    using assms by (simp add: OnFetchCompleted_def)
  have w: "waiters key (st\<lparr>InsertServerPublisherInfo_calls :=
      InsertServerPublisherInfo_calls st @ [(server_info, key)]\<rparr>) = waiters key st"
    by (simp add: waiters_def)
  show ?thesis
    by (simp add: eq OnFetchCompleted_lambda_def RunCallbacks_Some w nth_append)
qed

theorem OnFetchCompleted_success_witness:
  "OnFetchCompleted
     \<lparr>DecodeString = (\<lambda>payload. None),
      ParseFromString = (\<lambda>s. Some
        [\<lparr>channel_identifier = ''pub'', wallet_connected_state = UPHOLD_ACCOUNT_KYC,
          wallet_address = ''w2'', site_banner_details = None\<rparr>])\<rparr>
     5000000 ''pub'' \<lparr>status_code = 200, body = [0, 0, 0, 1, 10, 0]\<rparr>
     \<lparr>callback_map = [(''pub'', 1), (''other'', 2), (''pub'', 3)],
      LoadURL_calls = [(''u1'', ''pub''), (''u2'', ''other'')],
      InsertServerPublisherInfo_calls = [], objects = [], callback_runs = []\<rparr> =
     \<lparr>callback_map = [(''pub'', 1), (''other'', 2), (''pub'', 3)],
      LoadURL_calls = [(''u1'', ''pub''), (''u2'', ''other'')],
      InsertServerPublisherInfo_calls =
        [(\<lparr>ServerPublisherInfo.publisher_key = ''pub'', ServerPublisherInfo.status = VERIFIED,
           address = ''w2'', ServerPublisherInfo.updated_at = 5, banner = None\<rparr>, ''pub'')],
      objects = [], callback_runs = []\<rparr> \<and>
   OnFetchCompleted_lambda ''pub''
     \<lparr>ServerPublisherInfo.publisher_key = ''pub'', ServerPublisherInfo.status = VERIFIED,
      address = ''w2'', ServerPublisherInfo.updated_at = 5, banner = None\<rparr>
     (OTHER_RESULT 1)
     (OnFetchCompleted
       \<lparr>DecodeString = (\<lambda>payload. None),
        ParseFromString = (\<lambda>s. Some
          [\<lparr>channel_identifier = ''pub'', wallet_connected_state = UPHOLD_ACCOUNT_KYC,
            wallet_address = ''w2'', site_banner_details = None\<rparr>])\<rparr>
       5000000 ''pub'' \<lparr>status_code = 200, body = [0, 0, 0, 1, 10, 0]\<rparr>
       \<lparr>callback_map = [(''pub'', 1), (''other'', 2), (''pub'', 3)],
        LoadURL_calls = [(''u1'', ''pub''), (''u2'', ''other'')],
        InsertServerPublisherInfo_calls = [], objects = [], callback_runs = []\<rparr>) =
     \<lparr>callback_map = [(''other'', 2)],
      LoadURL_calls = [(''u1'', ''pub''), (''u2'', ''other'')],
      InsertServerPublisherInfo_calls =
        [(\<lparr>ServerPublisherInfo.publisher_key = ''pub'', ServerPublisherInfo.status = VERIFIED,
           address = ''w2'', ServerPublisherInfo.updated_at = 5, banner = None\<rparr>, ''pub'')],
      objects =
        [\<lparr>ServerPublisherInfo.publisher_key = ''pub'', ServerPublisherInfo.status = VERIFIED,
          address = ''w2'', ServerPublisherInfo.updated_at = 5, banner = None\<rparr>,
         \<lparr>ServerPublisherInfo.publisher_key = ''pub'', ServerPublisherInfo.status = VERIFIED,
          address = ''w2'', ServerPublisherInfo.updated_at = 5, banner = None\<rparr>],
      callback_runs = [(1, Some 0), (3, Some 1)]\<rparr>"
proof -
  have run: "ParseResponse
     \<lparr>DecodeString = (\<lambda>payload. None),
      ParseFromString = (\<lambda>s. Some
        [\<lparr>channel_identifier = ''pub'', wallet_connected_state = UPHOLD_ACCOUNT_KYC,
          wallet_address = ''w2'', site_banner_details = None\<rparr>])\<rparr>
     5000000 ''pub''
     (status_code \<lparr>status_code = 200, body = [0, 0, 0, 1, 10, 0]\<rparr>)
     (body \<lparr>status_code = 200, body = [0, 0, 0, 1, 10, 0]\<rparr>) =
   Some \<lparr>ServerPublisherInfo.publisher_key = ''pub'', ServerPublisherInfo.status = VERIFIED,
         address = ''w2'', ServerPublisherInfo.updated_at = 5, banner = None\<rparr>"
    by (simp add: ParseResponse_def HTTP_OK_def HTTP_NOT_FOUND_def RemovePadding_def
        ReadBigEndian_def DecompressMessage_def ServerPublisherInfo_New_def
        ToDoubleT_uint64_def Let_def)
  show ?thesis
    using OnFetchCompleted_success [OF run, of
        "\<lparr>callback_map = [(''pub'', 1), (''other'', 2), (''pub'', 3)],
          LoadURL_calls = [(''u1'', ''pub''), (''u2'', ''other'')],
          InsertServerPublisherInfo_calls = [], objects = [], callback_runs = []\<rparr>"
        "OTHER_RESULT 1"]
    by (simp add: waiters_def equal_range_def multimap_erase_def cong: conj_cong)
qed

text \<open>
  C4: for a response with the status NotFound, \<^verbatim>\<open>ParseResponse\<close> returns the record with
  the status \<^verbatim>\<open>NOT_VERIFIED\<close>, the requested key, \<^verbatim>\<open>updated_at\<close> the current time in
  seconds, an empty address and no banner; \<^verbatim>\<open>OnFetchCompleted\<close> issues exactly one store
  write, of that record, and runs no callback before it; the completion of the write
  runs the waiters and issues no other write.
\<close>

theorem OnFetchCompleted_not_found:
  assumes "status_code response = HTTP_NOT_FOUND"
  shows "ParseResponse lib now key (status_code response) (body response) =
           Some \<lparr>ServerPublisherInfo.publisher_key = key,
                 ServerPublisherInfo.status = NOT_VERIFIED, address = [],
                 ServerPublisherInfo.updated_at = ToDoubleT_uint64 now, banner = None\<rparr> \<and>
         OnFetchCompleted lib now key response st =
           st\<lparr>InsertServerPublisherInfo_calls := InsertServerPublisherInfo_calls st @
                [(\<lparr>ServerPublisherInfo.publisher_key = key,
                   ServerPublisherInfo.status = NOT_VERIFIED, address = [],
                   ServerPublisherInfo.updated_at = ToDoubleT_uint64 now, banner = None\<rparr>,
                  key)]\<rparr> \<and>
         callback_runs (OnFetchCompleted lib now key response st) = callback_runs st \<and>
         waiters key (OnFetchCompleted lib now key response st) = waiters key st \<and>
         InsertServerPublisherInfo_calls
           (OnFetchCompleted_lambda key
              \<lparr>ServerPublisherInfo.publisher_key = key,
               ServerPublisherInfo.status = NOT_VERIFIED, address = [],
               ServerPublisherInfo.updated_at = ToDoubleT_uint64 now, banner = None\<rparr>
              result (OnFetchCompleted lib now key response st)) =
           InsertServerPublisherInfo_calls st @
             [(\<lparr>ServerPublisherInfo.publisher_key = key,
                ServerPublisherInfo.status = NOT_VERIFIED, address = [],
                ServerPublisherInfo.updated_at = ToDoubleT_uint64 now, banner = None\<rparr>,
               key)] \<and>
         callback_runs
           (OnFetchCompleted_lambda key
              \<lparr>ServerPublisherInfo.publisher_key = key,
               ServerPublisherInfo.status = NOT_VERIFIED, address = [],
               ServerPublisherInfo.updated_at = ToDoubleT_uint64 now, banner = None\<rparr>
              result (OnFetchCompleted lib now key response st)) =
           callback_runs st @
             zip (waiters key st)
               (map Some [length (objects st) ..<
                          length (objects st) + length (waiters key st)])"
proof -
  have parse: "ParseResponse lib now key (status_code response) (body response) =
      Some \<lparr>ServerPublisherInfo.publisher_key = key,
            ServerPublisherInfo.status = NOT_VERIFIED, address = [],
            ServerPublisherInfo.updated_at = ToDoubleT_uint64 now, banner = None\<rparr>"
    using assms by (simp add: ParseResponse_not_found GetServerInfoForEmptyResponse_eq)
  then have eq: "OnFetchCompleted lib now key response st =
      st\<lparr>InsertServerPublisherInfo_calls := InsertServerPublisherInfo_calls st @
           [(\<lparr>ServerPublisherInfo.publisher_key = key,
              ServerPublisherInfo.status = NOT_VERIFIED, address = [],
              ServerPublisherInfo.updated_at = ToDoubleT_uint64 now, banner = None\<rparr>,
             key)]\<rparr>"
    by (simp add: OnFetchCompleted_def)
  show ?thesis
    unfolding eq
    by (simp add: parse OnFetchCompleted_lambda_def RunCallbacks_Some waiters_def)
qed

theorem OnFetchCompleted_not_found_witness:
  "OnFetchCompleted \<lparr>DecodeString = (\<lambda>payload. None), ParseFromString = (\<lambda>s. None)\<rparr>
     7000000 ''pub'' \<lparr>status_code = 404, body = []\<rparr>
     \<lparr>callback_map = [(''pub'', 1), (''pub'', 3)],
      LoadURL_calls = [(''u1'', ''pub'')],
      InsertServerPublisherInfo_calls = [], objects = [], callback_runs = []\<rparr> =
     \<lparr>callback_map = [(''pub'', 1), (''pub'', 3)],
      LoadURL_calls = [(''u1'', ''pub'')],
      InsertServerPublisherInfo_calls =
        [(\<lparr>ServerPublisherInfo.publisher_key = ''pub'',
           ServerPublisherInfo.status = NOT_VERIFIED, address = [],
           ServerPublisherInfo.updated_at = 7, banner = None\<rparr>, ''pub'')],
      objects = [], callback_runs = []\<rparr> \<and>
   callback_runs
     (OnFetchCompleted_lambda ''pub''
        \<lparr>ServerPublisherInfo.publisher_key = ''pub'',
         ServerPublisherInfo.status = NOT_VERIFIED, address = [],
         ServerPublisherInfo.updated_at = 7, banner = None\<rparr>
        LEDGER_OK
        (OnFetchCompleted \<lparr>DecodeString = (\<lambda>payload. None), ParseFromString = (\<lambda>s. None)\<rparr>
           7000000 ''pub'' \<lparr>status_code = 404, body = []\<rparr>
           \<lparr>callback_map = [(''pub'', 1), (''pub'', 3)],
            LoadURL_calls = [(''u1'', ''pub'')],
            InsertServerPublisherInfo_calls = [], objects = [], callback_runs = []\<rparr>)) =
     [(1, Some 0), (3, Some 1)]"
  using OnFetchCompleted_not_found
      [of "\<lparr>status_code = 404, body = []\<rparr>"
          "\<lparr>DecodeString = (\<lambda>payload. None), ParseFromString = (\<lambda>s. None)\<rparr>"
          7000000 "''pub''"
          "\<lparr>callback_map = [(''pub'', 1), (''pub'', 3)],
            LoadURL_calls = [(''u1'', ''pub'')],
            InsertServerPublisherInfo_calls = [], objects = [], callback_runs = []\<rparr>"
          LEDGER_OK]
  by (simp add: HTTP_NOT_FOUND_def ToDoubleT_uint64_def waiters_def equal_range_def
      cong: conj_cong)

text \<open>
  C2: when \<^verbatim>\<open>Fetch\<close> is called for a key that has an entry in the callback table, it
  issues no request and registers the callback after the waiters already there. When the
  fetch in flight completes, every callback registered for the key is run exactly once
  and leaves the table: with null when no record was parsed, and otherwise each with a
  pointer to a new object of its own that holds the record. No request is issued on the
  way.
\<close>

theorem Fetch_in_flight:
  assumes "0 < multimap_count key (callback_map st)"
  shows "LoadURL_calls (Fetch util key cb2 st) = LoadURL_calls st \<and>
         waiters key (Fetch util key cb2 st) = waiters key st @ [cb2] \<and>
         (ParseResponse lib now key (status_code response) (body response) = None \<longrightarrow>
            OnFetchCompleted lib now key response (Fetch util key cb2 st) =
              st\<lparr>callback_map := multimap_erase key (callback_map st),
                 callback_runs := callback_runs st @
                   map (\<lambda>cb. (cb, None)) (waiters key st @ [cb2])\<rparr>) \<and>
         (ParseResponse lib now key (status_code response) (body response) = Some server_info \<longrightarrow>
            OnFetchCompleted_lambda key server_info result
                (OnFetchCompleted lib now key response (Fetch util key cb2 st)) =
              st\<lparr>callback_map := multimap_erase key (callback_map st),
                 InsertServerPublisherInfo_calls :=
                   InsertServerPublisherInfo_calls st @ [(server_info, key)],
                 objects := objects st @
                   replicate (length (waiters key st @ [cb2])) server_info,
                 callback_runs := callback_runs st @
                   zip (waiters key st @ [cb2])
                     (map Some [length (objects st) ..<
                                length (objects st) + length (waiters key st @ [cb2])])\<rparr> \<and>
            (\<forall>i < length (waiters key st @ [cb2]).
               callback_runs (OnFetchCompleted_lambda key server_info result
                   (OnFetchCompleted lib now key response (Fetch util key cb2 st)))
                 ! (length (callback_runs st) + i) =
                 ((waiters key st @ [cb2]) ! i, Some (length (objects st) + i)) \<and>
               objects (OnFetchCompleted_lambda key server_info result
                   (OnFetchCompleted lib now key response (Fetch util key cb2 st)))
                 ! (length (objects st) + i) = server_info))"
proof -
  let ?st1 = "st\<lparr>callback_map := callback_map st @ [(key, cb2)]\<rparr>"
  define ws where "ws = waiters key st @ [cb2]"
  have fetch: "Fetch util key cb2 st = ?st1"
    using assms by (rule Fetch_in_flight_eq)
  have w: "waiters key ?st1 = ws"
    unfolding ws_def by (rule waiters_append)
  have failure: "OnFetchCompleted lib now key response ?st1 =
      st\<lparr>callback_map := multimap_erase key (callback_map st),
         callback_runs := callback_runs st @ map (\<lambda>cb. (cb, None)) ws\<rparr>"
    if "ParseResponse lib now key (status_code response) (body response) = None"
    using that by (simp add: OnFetchCompleted_def RunCallbacks_None w erase_append)
  have success: "OnFetchCompleted_lambda key server_info result
        (OnFetchCompleted lib now key response ?st1) =
      st\<lparr>callback_map := multimap_erase key (callback_map st),
         InsertServerPublisherInfo_calls :=
           InsertServerPublisherInfo_calls st @ [(server_info, key)],
         objects := objects st @ replicate (length ws) server_info,
         callback_runs := callback_runs st @
           zip ws (map Some [length (objects st) ..< length (objects st) + length ws])\<rparr>"
    if p: "ParseResponse lib now key (status_code response) (body response) = Some server_info"
    using OnFetchCompleted_success_aux [OF p, of result ?st1]
    unfolding w by (simp add: erase_append)
  show ?thesis
    unfolding fetch ws_def [symmetric]
  proof (intro conjI impI allI)
    show "LoadURL_calls ?st1 = LoadURL_calls st" by simp
    show "waiters key ?st1 = ws" by (rule w)
  next
    assume "ParseResponse lib now key (status_code response) (body response) = None"
    then show "OnFetchCompleted lib now key response ?st1 =
      st\<lparr>callback_map := multimap_erase key (callback_map st),
         callback_runs := callback_runs st @ map (\<lambda>cb. (cb, None)) ws\<rparr>"
      by (rule failure)
  next
    assume p: "ParseResponse lib now key (status_code response) (body response) = Some server_info"
    then show "OnFetchCompleted_lambda key server_info result
        (OnFetchCompleted lib now key response ?st1) =
      st\<lparr>callback_map := multimap_erase key (callback_map st),
         InsertServerPublisherInfo_calls :=
           InsertServerPublisherInfo_calls st @ [(server_info, key)],
         objects := objects st @ replicate (length ws) server_info,
         callback_runs := callback_runs st @
           zip ws (map Some [length (objects st) ..< length (objects st) + length ws])\<rparr>"
      by (rule success)
  next
    fix i
    assume p: "ParseResponse lib now key (status_code response) (body response) = Some server_info"
      and i: "i < length ws"
    show "callback_runs (OnFetchCompleted_lambda key server_info result
              (OnFetchCompleted lib now key response ?st1)) ! (length (callback_runs st) + i) =
            (ws ! i, Some (length (objects st) + i))"
      unfolding success [OF p] using i by simp
    show "objects (OnFetchCompleted_lambda key server_info result
              (OnFetchCompleted lib now key response ?st1)) ! (length (objects st) + i) =
            server_info"
      unfolding success [OF p] using i by simp
  qed
qed

theorem Fetch_in_flight_witness:
  "Fetch 
     \<lparr>GetHashPrefixInHex = (\<lambda>k n. ''a1b2''),
      BuildUrl = (\<lambda>path prefix server. ''https://host'' @ path)\<rparr> ''pub'' 1
     \<lparr>callback_map = [], LoadURL_calls = [], InsertServerPublisherInfo_calls = [],
      objects = [], callback_runs = []\<rparr> =
     
     \<lparr>callback_map = [(''pub'', 1)],
      LoadURL_calls = [(''https://host/prefix/a1b2'', ''pub'')],
      InsertServerPublisherInfo_calls = [], objects = [], callback_runs = []\<rparr> \<and>
   LoadURL_calls (Fetch 
     \<lparr>GetHashPrefixInHex = (\<lambda>k n. ''a1b2''),
      BuildUrl = (\<lambda>path prefix server. ''https://host'' @ path)\<rparr> ''pub'' 2 
     \<lparr>callback_map = [(''pub'', 1)],
      LoadURL_calls = [(''https://host/prefix/a1b2'', ''pub'')],
      InsertServerPublisherInfo_calls = [], objects = [], callback_runs = []\<rparr>) = [(''https://host/prefix/a1b2'', ''pub'')] \<and>
   OnFetchCompleted \<lparr>DecodeString = (\<lambda>payload. None), ParseFromString = (\<lambda>s. None)\<rparr> 7000000 ''pub'' \<lparr>status_code = 500, body = []\<rparr>
     (Fetch 
     \<lparr>GetHashPrefixInHex = (\<lambda>k n. ''a1b2''),
      BuildUrl = (\<lambda>path prefix server. ''https://host'' @ path)\<rparr> ''pub'' 2 
     \<lparr>callback_map = [(''pub'', 1)],
      LoadURL_calls = [(''https://host/prefix/a1b2'', ''pub'')],
      InsertServerPublisherInfo_calls = [], objects = [], callback_runs = []\<rparr>) =
     \<lparr>callback_map = [],
      LoadURL_calls = [(''https://host/prefix/a1b2'', ''pub'')],
      InsertServerPublisherInfo_calls = [], objects = [],
      callback_runs = [(1, None), (2, None)]\<rparr> \<and>
   OnFetchCompleted_lambda ''pub'' 
     \<lparr>ServerPublisherInfo.publisher_key = ''pub'',
      ServerPublisherInfo.status = NOT_VERIFIED, address = [],
      ServerPublisherInfo.updated_at = 7, banner = None\<rparr> LEDGER_OK
     (OnFetchCompleted \<lparr>DecodeString = (\<lambda>payload. None), ParseFromString = (\<lambda>s. None)\<rparr> 7000000 ''pub'' \<lparr>status_code = 404, body = []\<rparr>
        (Fetch 
     \<lparr>GetHashPrefixInHex = (\<lambda>k n. ''a1b2''),
      BuildUrl = (\<lambda>path prefix server. ''https://host'' @ path)\<rparr> ''pub'' 2 
     \<lparr>callback_map = [(''pub'', 1)],
      LoadURL_calls = [(''https://host/prefix/a1b2'', ''pub'')],
      InsertServerPublisherInfo_calls = [], objects = [], callback_runs = []\<rparr>)) =
     \<lparr>callback_map = [],
      LoadURL_calls = [(''https://host/prefix/a1b2'', ''pub'')],
      InsertServerPublisherInfo_calls = [(
     \<lparr>ServerPublisherInfo.publisher_key = ''pub'',
      ServerPublisherInfo.status = NOT_VERIFIED, address = [],
      ServerPublisherInfo.updated_at = 7, banner = None\<rparr>, ''pub'')],
      objects = [
     \<lparr>ServerPublisherInfo.publisher_key = ''pub'',
      ServerPublisherInfo.status = NOT_VERIFIED, address = [],
      ServerPublisherInfo.updated_at = 7, banner = None\<rparr>, 
     \<lparr>ServerPublisherInfo.publisher_key = ''pub'',
      ServerPublisherInfo.status = NOT_VERIFIED, address = [],
      ServerPublisherInfo.updated_at = 7, banner = None\<rparr>],
      callback_runs = [(1, Some 0), (2, Some 1)]\<rparr>"
proof -
  have first: "Fetch 
     \<lparr>GetHashPrefixInHex = (\<lambda>k n. ''a1b2''),
      BuildUrl = (\<lambda>path prefix server. ''https://host'' @ path)\<rparr> ''pub'' 1
     \<lparr>callback_map = [], LoadURL_calls = [], InsertServerPublisherInfo_calls = [],
      objects = [], callback_runs = []\<rparr> =
     
     \<lparr>callback_map = [(''pub'', 1)],
      LoadURL_calls = [(''https://host/prefix/a1b2'', ''pub'')],
      InsertServerPublisherInfo_calls = [], objects = [], callback_runs = []\<rparr>"
    by (simp add: Fetch_def multimap_count_def GetPublisherInfoUrl_def kPrefix_def Let_def)
  have in_flight: "0 < multimap_count ''pub'' (callback_map 
     \<lparr>callback_map = [(''pub'', 1)],
      LoadURL_calls = [(''https://host/prefix/a1b2'', ''pub'')],
      InsertServerPublisherInfo_calls = [], objects = [], callback_runs = []\<rparr>)"
    by (simp add: multimap_count_def)
  have none: "ParseResponse \<lparr>DecodeString = (\<lambda>payload. None), ParseFromString = (\<lambda>s. None)\<rparr> 7000000 ''pub''
      (status_code \<lparr>status_code = 500, body = []\<rparr>) (body \<lparr>status_code = 500, body = []\<rparr>) = None"
    by (simp add: ParseResponse_def HTTP_OK_def HTTP_NOT_FOUND_def)
  have some: "ParseResponse \<lparr>DecodeString = (\<lambda>payload. None), ParseFromString = (\<lambda>s. None)\<rparr> 7000000 ''pub''
      (status_code \<lparr>status_code = 404, body = []\<rparr>) (body \<lparr>status_code = 404, body = []\<rparr>) =
      Some 
     \<lparr>ServerPublisherInfo.publisher_key = ''pub'',
      ServerPublisherInfo.status = NOT_VERIFIED, address = [],
      ServerPublisherInfo.updated_at = 7, banner = None\<rparr>"
    by (simp add: ParseResponse_def HTTP_NOT_FOUND_def GetServerInfoForEmptyResponse_def
        ServerPublisherInfo_New_def ToDoubleT_uint64_def)
  show ?thesis
    using first
      Fetch_in_flight [OF in_flight, of 
     "\<lparr>GetHashPrefixInHex = (\<lambda>k n. ''a1b2''),
      BuildUrl = (\<lambda>path prefix server. ''https://host'' @ path)\<rparr>" 2 "\<lparr>DecodeString = (\<lambda>payload. None), ParseFromString = (\<lambda>s. None)\<rparr>" 7000000
        "\<lparr>status_code = 500, body = []\<rparr>" 
     "\<lparr>ServerPublisherInfo.publisher_key = ''pub'',
      ServerPublisherInfo.status = NOT_VERIFIED, address = [],
      ServerPublisherInfo.updated_at = 7, banner = None\<rparr>" LEDGER_OK]
      Fetch_in_flight [OF in_flight, of 
     "\<lparr>GetHashPrefixInHex = (\<lambda>k n. ''a1b2''),
      BuildUrl = (\<lambda>path prefix server. ''https://host'' @ path)\<rparr>" 2 "\<lparr>DecodeString = (\<lambda>payload. None), ParseFromString = (\<lambda>s. None)\<rparr>" 7000000
        "\<lparr>status_code = 404, body = []\<rparr>" 
     "\<lparr>ServerPublisherInfo.publisher_key = ''pub'',
      ServerPublisherInfo.status = NOT_VERIFIED, address = [],
      ServerPublisherInfo.updated_at = 7, banner = None\<rparr>" LEDGER_OK]
    unfolding none some
    by (simp add: waiters_def equal_range_def multimap_erase_def cong: conj_cong)
qed

section \<open>Properties of the batch refresher\<close>

lemma find_if_holds:
  "find_if pred xs first \<noteq> length xs \<Longrightarrow> pred (xs ! find_if pred xs first)"
proof (induction pred xs first rule: find_if.induct)
  case (1 pred xs first)
  then show ?case
    by (subst (asm) (3) find_if.simps, subst find_if.simps) (auto split: if_splits)
qed

lemma find_if_skips:
  "first \<le> i \<Longrightarrow> i < find_if pred xs first \<Longrightarrow> \<not> pred (xs ! i)"
proof (induction pred xs first rule: find_if.induct)
  case (1 pred xs first)
  show ?case
  proof (cases "first < length xs \<and> \<not> pred (xs ! first)")
    case True
    then have eq: "find_if pred xs first = find_if pred xs (Suc first)"
      by (subst find_if.simps) simp
    show ?thesis
    proof (cases "i = first")
      case True
      with \<open>first < length xs \<and> \<not> pred (xs ! first)\<close> show ?thesis by simp
    next
      case False
      with "1.prems" have "Suc first \<le> i" by simp
      with True "1.IH" "1.prems"(2) eq show ?thesis by simp
    qed
  next
    case False
    have "find_if pred xs first = (if first < length xs then first else length xs)"
      by (subst find_if.simps) (use False in auto)
    with "1.prems" False show ?thesis
      by (auto split: if_splits)
  qed
qed

lemma find_if_filter:
  "(\<And>x. Q x \<Longrightarrow> pred x) \<Longrightarrow>
   filter Q (drop first xs) = filter Q (drop (find_if pred xs first) xs)"
proof (induction pred xs first rule: find_if.induct)
  case (1 pred xs first)
  show ?case
  proof (cases "first < length xs \<and> \<not> pred (xs ! first)")
    case True
    then have eq: "find_if pred xs first = find_if pred xs (Suc first)"
      by (subst find_if.simps) simp
    from True have "drop first xs = xs ! first # drop (Suc first) xs"
      by (simp add: Cons_nth_drop_Suc)
    moreover from True "1.prems" have "\<not> Q (xs ! first)" by blast
    ultimately have "filter Q (drop first xs) = filter Q (drop (Suc first) xs)" by simp
    with True "1.IH" "1.prems" eq show ?thesis by simp
  next
    case False
    have "find_if pred xs first = (if first < length xs then first else length xs)"
      by (subst find_if.simps) (use False in auto)
    then show ?thesis by simp
  qed
qed

lemma RefreshNext_end:
  assumes "find_if (expired_entry (ledger t)) (task_map t) (current t) = length (task_map t)"
  shows "RefreshNext t = t\<lparr>current := length (task_map t)\<rparr>"
  using assms
  by (subst RefreshNext.simps) (simp add: Let_def)

lemma RefreshNext_absent:
  assumes "find_if (expired_entry (ledger t)) (task_map t) (current t) = cur"
    and "cur \<noteq> length (task_map t)"
    and "\<not> SearchPublisherList (ledger t) (fst (task_map t ! cur))"
  shows "RefreshNext t =
     RefreshNext (t\<lparr>SearchPublisherList_calls :=
         SearchPublisherList_calls t @ [fst (task_map t ! cur)],
       current := cur + 1\<rparr>)"
  using assms
  by (subst RefreshNext.simps) (simp add: Let_def)

lemma RefreshNext_present:
  assumes "find_if (expired_entry (ledger t)) (task_map t) (current t) = cur"
    and "cur \<noteq> length (task_map t)"
    and "SearchPublisherList (ledger t) (fst (task_map t ! cur))"
  shows "RefreshNext t =
     RefreshNext (t\<lparr>SearchPublisherList_calls :=
         SearchPublisherList_calls t @ [fst (task_map t ! cur)],
       RefreshPublisher_calls := RefreshPublisher_calls t @ [fst (task_map t ! cur)],
       task_map := (task_map t)
         [cur := (fst (task_map t ! cur),
                  (snd (task_map t ! cur))\<lparr>PublisherStatusData.status :=
                     RefreshPublisher (ledger t) (fst (task_map t ! cur))\<rparr>)],
       current := cur + 1\<rparr>)"
  using assms
  by (subst RefreshNext.simps) (simp add: Let_def)

lemma RefreshNext_scan:
  "ledger (RefreshNext t) = ledger t \<and>
   length (task_map (RefreshNext t)) = length (task_map t) \<and>
   (\<forall>i < length (task_map t).
      task_map (RefreshNext t) ! i =
        (if current t \<le> i then refreshed_entry (ledger t) (task_map t ! i)
         else task_map t ! i)) \<and>
   SearchPublisherList_calls (RefreshNext t) =
     SearchPublisherList_calls t @
       map fst (filter (expired_entry (ledger t)) (drop (current t) (task_map t))) \<and>
   RefreshPublisher_calls (RefreshNext t) =
     RefreshPublisher_calls t @
       map fst (filter (\<lambda>kv. expired_entry (ledger t) kv \<and> SearchPublisherList (ledger t) (fst kv))
                  (drop (current t) (task_map t)))"
proof (induction "length (task_map t) - current t" arbitrary: t rule: less_induct)
  case less
  let ?l = "ledger t" and ?m = "task_map t" and ?c = "current t"
  let ?Q = "\<lambda>kv. expired_entry ?l kv \<and> SearchPublisherList ?l (fst kv)"
  define cur where "cur = find_if (expired_entry ?l) ?m ?c"
  have skip: "\<not> expired_entry ?l (?m ! i)" if "?c \<le> i" and "i < cur" for i
    using that find_if_skips [of ?c i "expired_entry ?l" ?m] by (simp add: cur_def)
  have same: "refreshed_entry ?l (?m ! i) = ?m ! i" if "?c \<le> i" and "i < cur" for i
    using skip [OF that] by (simp add: refreshed_entry_def)
  have f1: "filter (expired_entry ?l) (drop ?c ?m) = filter (expired_entry ?l) (drop cur ?m)"
    unfolding cur_def by (rule find_if_filter) simp
  have f2: "filter ?Q (drop ?c ?m) = filter ?Q (drop cur ?m)"
    unfolding cur_def by (rule find_if_filter) simp
  show ?case
  proof (cases "cur = length ?m")
    case True
    then have r: "RefreshNext t = t\<lparr>current := length ?m\<rparr>"
      unfolding cur_def by (rule RefreshNext_end)
    show ?thesis
      unfolding r using same True by (simp add: f1 f2)
  next
    case False
    then have b: "?c \<le> cur" "cur < length ?m"
      using find_if_bounds [of "expired_entry ?l" ?m ?c] by (simp_all add: cur_def)
    have e: "expired_entry ?l (?m ! cur)"
      using False find_if_holds [of "expired_entry ?l" ?m ?c] by (simp add: cur_def)
    have d: "drop cur ?m = ?m ! cur # drop (Suc cur) ?m"
      using b by (simp add: Cons_nth_drop_Suc)
    obtain key data where kd: "?m ! cur = (key, data)" by (cases "?m ! cur")
    show ?thesis
    proof (cases "SearchPublisherList ?l key")
      case absent: False
      let ?t' = "t\<lparr>SearchPublisherList_calls := SearchPublisherList_calls t @ [key],
                    current := cur + 1\<rparr>"
      have r: "RefreshNext t = RefreshNext ?t'"
        using RefreshNext_absent [of t cur] False absent kd by (simp add: cur_def)
      have "length (task_map ?t') - current ?t' < length ?m - ?c"
        using b by simp
      note IH = less [OF this]
      have here: "refreshed_entry ?l (?m ! cur) = ?m ! cur"
        using absent kd by (simp add: refreshed_entry_def)
      have nth: "task_map (RefreshNext ?t') ! i =
          (if ?c \<le> i then refreshed_entry ?l (?m ! i) else ?m ! i)" if "i < length ?m" for i
      proof -
        from IH that have "task_map (RefreshNext ?t') ! i =
            (if cur + 1 \<le> i then refreshed_entry ?l (?m ! i) else ?m ! i)" by simp
        moreover have "refreshed_entry ?l (?m ! i) = ?m ! i" if "?c \<le> i" "i < cur + 1"
          using that same [of i] here by (cases "i = cur") simp_all
        ultimately show ?thesis using b by auto
      qed
      show ?thesis
        unfolding r using IH nth e absent kd
        by (simp add: f1 f2 d)
    next
      case present: True
      let ?t' = "t\<lparr>SearchPublisherList_calls := SearchPublisherList_calls t @ [key],
                    RefreshPublisher_calls := RefreshPublisher_calls t @ [key],
                    task_map := ?m[cur := (key, data\<lparr>PublisherStatusData.status :=
                                                    RefreshPublisher ?l key\<rparr>)],
                    current := cur + 1\<rparr>"
      have r: "RefreshNext t = RefreshNext ?t'"
        using RefreshNext_present [of t cur] False present kd by (simp add: cur_def)
      have "length (task_map ?t') - current ?t' < length ?m - ?c"
        using b by simp
      note IH = less [OF this]
      have here: "refreshed_entry ?l (?m ! cur) =
          (key, data\<lparr>PublisherStatusData.status := RefreshPublisher ?l key\<rparr>)"
        using present e kd by (simp add: refreshed_entry_def)
      have nth: "task_map (RefreshNext ?t') ! i =
          (if ?c \<le> i then refreshed_entry ?l (?m ! i) else ?m ! i)" if "i < length ?m" for i
      proof -
        from IH that have "task_map (RefreshNext ?t') ! i =
            (if cur + 1 \<le> i then refreshed_entry ?l (task_map ?t' ! i) else task_map ?t' ! i)"
          by simp
        moreover have "task_map ?t' ! i = ?m ! i" if "i \<noteq> cur"
          using that by simp
        moreover have "task_map ?t' ! cur = refreshed_entry ?l (?m ! cur)"
          using b here by simp
        moreover have "refreshed_entry ?l (?m ! i) = ?m ! i" if "?c \<le> i" "i < cur"
          using that by (rule same)
        ultimately show ?thesis using b by (cases "i = cur") auto
      qed
      have dd: "drop (Suc cur) (task_map ?t') = drop (Suc cur) ?m"
        by simp
      show ?thesis
        unfolding r using IH nth e present kd dd
        by (simp add: f1 f2 d)
    qed
  qed
qed

lemma RefreshPublisherStatus_eq:
  "task_map (RefreshPublisherStatus l status_map) = map (refreshed_entry l) status_map"
  "SearchPublisherList_calls (RefreshPublisherStatus l status_map) =
     map fst (filter (expired_entry l) status_map)"
  "RefreshPublisher_calls (RefreshPublisherStatus l status_map) =
     map fst (filter (\<lambda>kv. expired_entry l kv \<and> SearchPublisherList l (fst kv)) status_map)"
proof -
  let ?t = "\<lparr>ledger = l, task_map = status_map, current = 0,
             SearchPublisherList_calls = [], RefreshPublisher_calls = []\<rparr>"
  note scan = RefreshNext_scan [of ?t]
  have r: "RefreshPublisherStatus l status_map = RefreshNext ?t"
    by (simp add: RefreshPublisherStatus_def)
  show "task_map (RefreshPublisherStatus l status_map) = map (refreshed_entry l) status_map"
    unfolding r
  proof (rule nth_equalityI)
    show "length (task_map (RefreshNext ?t)) = length (map (refreshed_entry l) status_map)"
      using scan by simp
  next
    fix i
    assume "i < length (task_map (RefreshNext ?t))"
    with scan have "i < length status_map" by simp
    with scan show "task_map (RefreshNext ?t) ! i = map (refreshed_entry l) status_map ! i"
      by simp
  qed
  show "SearchPublisherList_calls (RefreshPublisherStatus l status_map) =
      map fst (filter (expired_entry l) status_map)"
    unfolding r using scan by simp
  show "RefreshPublisher_calls (RefreshPublisherStatus l status_map) =
      map fst (filter (\<lambda>kv. expired_entry l kv \<and> SearchPublisherList l (fst kv)) status_map)"
    unfolding r using scan by simp
qed

text \<open>
  C5: in a scan over the whole map, an expired entry whose key the index does not have
  keeps its status and no fetch is issued for its key, and the scan goes on to the
  entries after it; an expired entry whose key the index has gets the fetched status,
  with its key and its \<^verbatim>\<open>updated_at\<close> unchanged; every other entry is unchanged. The index
  is asked once for every expired entry, in the order of the map.
\<close>

theorem RefreshPublisherStatus_scan:
  "task_map (RefreshPublisherStatus l status_map) =
     map (\<lambda>kv. if expired_entry l kv \<and> SearchPublisherList l (fst kv)
               then (fst kv,
                     (snd kv)\<lparr>PublisherStatusData.status := RefreshPublisher l (fst kv)\<rparr>)
               else kv)
       status_map \<and>
   SearchPublisherList_calls (RefreshPublisherStatus l status_map) =
     map fst (filter (expired_entry l) status_map) \<and>
   RefreshPublisher_calls (RefreshPublisherStatus l status_map) =
     map fst (filter (\<lambda>kv. expired_entry l kv \<and> SearchPublisherList l (fst kv)) status_map) \<and>
   (\<forall>kv \<in> set status_map.
      expired_entry l kv \<and> \<not> SearchPublisherList l (fst kv) \<longrightarrow>
      fst kv \<notin> set (RefreshPublisher_calls (RefreshPublisherStatus l status_map)))"
proof (intro conjI ballI impI)
  have e: "refreshed_entry l =
      (\<lambda>kv. if expired_entry l kv \<and> SearchPublisherList l (fst kv)
            then (fst kv,
                  (snd kv)\<lparr>PublisherStatusData.status := RefreshPublisher l (fst kv)\<rparr>)
            else kv)"
    by (rule ext) (simp add: refreshed_entry_def)
  show "task_map (RefreshPublisherStatus l status_map) =
      map (\<lambda>kv. if expired_entry l kv \<and> SearchPublisherList l (fst kv)
                then (fst kv,
                      (snd kv)\<lparr>PublisherStatusData.status := RefreshPublisher l (fst kv)\<rparr>)
                else kv)
        status_map"
    by (simp add: RefreshPublisherStatus_eq(1) e)
  show "SearchPublisherList_calls (RefreshPublisherStatus l status_map) =
      map fst (filter (expired_entry l) status_map)"
    by (rule RefreshPublisherStatus_eq(2))
  show "RefreshPublisher_calls (RefreshPublisherStatus l status_map) =
      map fst (filter (\<lambda>kv. expired_entry l kv \<and> SearchPublisherList l (fst kv)) status_map)"
    by (rule RefreshPublisherStatus_eq(3))
next
  fix kv
  assume "expired_entry l kv \<and> \<not> SearchPublisherList l (fst kv)"
  then show "fst kv \<notin> set (RefreshPublisher_calls (RefreshPublisherStatus l status_map))"
    unfolding RefreshPublisherStatus_eq(3) by auto
qed

theorem RefreshPublisherStatus_scan_witness:
  "task_map (RefreshPublisherStatus
     \<lparr>GetUint64Option = (\<lambda>name. 3600),
      ShouldFetchServerPublisherInfo = (\<lambda>t. t < 1000000000),
      SearchPublisherList = (\<lambda>k. k = ''a''),
      RefreshPublisher = (\<lambda>k. CONNECTED)\<rparr>
     [(''a'', \<lparr>PublisherStatusData.status = NOT_VERIFIED, PublisherStatusData.updated_at = 100\<rparr>),
      (''b'', \<lparr>PublisherStatusData.status = VERIFIED, PublisherStatusData.updated_at = 9000\<rparr>),
      (''c'', \<lparr>PublisherStatusData.status = VERIFIED, PublisherStatusData.updated_at = 200\<rparr>)]) =
     [(''a'', \<lparr>PublisherStatusData.status = CONNECTED, PublisherStatusData.updated_at = 100\<rparr>),
      (''b'', \<lparr>PublisherStatusData.status = VERIFIED, PublisherStatusData.updated_at = 9000\<rparr>),
      (''c'', \<lparr>PublisherStatusData.status = VERIFIED, PublisherStatusData.updated_at = 200\<rparr>)] \<and>
   SearchPublisherList_calls (RefreshPublisherStatus
     \<lparr>GetUint64Option = (\<lambda>name. 3600),
      ShouldFetchServerPublisherInfo = (\<lambda>t. t < 1000000000),
      SearchPublisherList = (\<lambda>k. k = ''a''),
      RefreshPublisher = (\<lambda>k. CONNECTED)\<rparr>
     [(''a'', \<lparr>PublisherStatusData.status = NOT_VERIFIED, PublisherStatusData.updated_at = 100\<rparr>),
      (''b'', \<lparr>PublisherStatusData.status = VERIFIED, PublisherStatusData.updated_at = 9000\<rparr>),
      (''c'', \<lparr>PublisherStatusData.status = VERIFIED, PublisherStatusData.updated_at = 200\<rparr>)]) =
     [''a'', ''c''] \<and>
   RefreshPublisher_calls (RefreshPublisherStatus
     \<lparr>GetUint64Option = (\<lambda>name. 3600),
      ShouldFetchServerPublisherInfo = (\<lambda>t. t < 1000000000),
      SearchPublisherList = (\<lambda>k. k = ''a''),
      RefreshPublisher = (\<lambda>k. CONNECTED)\<rparr>
     [(''a'', \<lparr>PublisherStatusData.status = NOT_VERIFIED, PublisherStatusData.updated_at = 100\<rparr>),
      (''b'', \<lparr>PublisherStatusData.status = VERIFIED, PublisherStatusData.updated_at = 9000\<rparr>),
      (''c'', \<lparr>PublisherStatusData.status = VERIFIED, PublisherStatusData.updated_at = 200\<rparr>)]) =
     [''a'']"
  using RefreshPublisherStatus_scan
    [of "\<lparr>GetUint64Option = (\<lambda>name. 3600),
          ShouldFetchServerPublisherInfo = (\<lambda>t. t < 1000000000),
          SearchPublisherList = (\<lambda>k. k = ''a''),
          RefreshPublisher = (\<lambda>k. CONNECTED)\<rparr>"
        "[(''a'', \<lparr>PublisherStatusData.status = NOT_VERIFIED, PublisherStatusData.updated_at = 100\<rparr>),
          (''b'', \<lparr>PublisherStatusData.status = VERIFIED, PublisherStatusData.updated_at = 9000\<rparr>),
          (''c'', \<lparr>PublisherStatusData.status = VERIFIED, PublisherStatusData.updated_at = 200\<rparr>)]"]
  by (simp add: expired_entry_def FromDoubleT_def)

subsection \<open>The list adapters\<close>

lemma map_of_map_insert:
  "map_of m k = None \<Longrightarrow> map_of (map_insert (k, v) m) = (map_of m)(k \<mapsto> v)"
proof (induction m)
  case Nil
  then show ?case by simp
next
  case (Cons a m)
  obtain k' v' where a: "a = (k', v')" by (cases a)
  from Cons.prems a have "k \<noteq> k'" and "map_of m k = None"
    by (auto split: if_splits)
  with Cons.IH a show ?case
    by (auto simp: fun_eq_iff)
qed

lemma map_subscript_snd:
  "map_of (snd (map_subscript m k)) =
     (case map_of m k of
        Some d \<Rightarrow> map_of m
      | None \<Rightarrow> (map_of m)(k \<mapsto> PublisherStatusData_zero))"
  by (simp add: map_subscript_def map_of_map_insert split: option.splits)

lemma looked_up_status_subscript:
  "looked_up_status (snd (map_subscript m k)) k' = looked_up_status m k'"
  by (simp add: looked_up_status_def map_subscript_snd split: option.splits)

lemma map_after_lookups_subscript:
  "map_after_lookups (snd (map_subscript m k)) ks k' = map_after_lookups m (insert k ks) k'"
  by (simp add: map_after_lookups_def map_subscript_snd split: option.splits)

lemma PublisherInfoList_loop_Cons:
  "PublisherInfoList_loop m (info # rest) =
     (fst (PublisherInfoList_loop (snd (map_subscript m (id' info))) rest),
      info\<lparr>PublisherInfo.status := looked_up_status m (id' info)\<rparr> #
        snd (PublisherInfoList_loop (snd (map_subscript m (id' info))) rest))"
  by (simp add: looked_up_status_def map_subscript_def split: prod.splits option.splits)

lemma PendingContributionInfoList_loop_Cons:
  "PendingContributionInfoList_loop m (info # rest) =
     (fst (PendingContributionInfoList_loop
             (snd (map_subscript m (PendingContributionInfo.publisher_key info))) rest),
      info\<lparr>PendingContributionInfo.status :=
             looked_up_status m (PendingContributionInfo.publisher_key info)\<rparr> #
        snd (PendingContributionInfoList_loop
               (snd (map_subscript m (PendingContributionInfo.publisher_key info))) rest))"
  by (simp add: looked_up_status_def map_subscript_def split: prod.splits option.splits)

lemma PublisherInfoList_loop_eq:
  "snd (PublisherInfoList_loop m l) =
     map (\<lambda>info. info\<lparr>PublisherInfo.status := looked_up_status m (id' info)\<rparr>) l \<and>
   map_of (fst (PublisherInfoList_loop m l)) k = map_after_lookups m (id' ` set l) k"
proof (induction l arbitrary: m)
  case Nil
  then show ?case
    by (simp add: map_after_lookups_def split: option.splits)
next
  case (Cons info rest)
  show ?case
    unfolding PublisherInfoList_loop_Cons
    by (simp add: Cons.IH looked_up_status_subscript map_after_lookups_subscript)
qed

lemma PendingContributionInfoList_loop_eq:
  "snd (PendingContributionInfoList_loop m l) =
     map (\<lambda>info. info\<lparr>PendingContributionInfo.status :=
                      looked_up_status m (PendingContributionInfo.publisher_key info)\<rparr>) l \<and>
   map_of (fst (PendingContributionInfoList_loop m l)) k =
     map_after_lookups m (PendingContributionInfo.publisher_key ` set l) k"
proof (induction l arbitrary: m)
  case Nil
  then show ?case
    by (simp add: map_after_lookups_def split: option.splits)
next
  case (Cons info rest)
  show ?case
    unfolding PendingContributionInfoList_loop_Cons
    by (simp add: Cons.IH looked_up_status_subscript map_after_lookups_subscript)
qed

text \<open>
  C9: in both list adapters, a record whose key the refreshed map does not have does not
  keep its status: \<^verbatim>\<open>operator[]\<close> inserts a value-initialized entry for the key, and the
  record gets the status of that entry, the enumerator 0, \<^verbatim>\<open>NOT_VERIFIED\<close>.
\<close>

theorem RefreshPublisherStatus_absent_key:
  "(\<forall>i < length info_list.
      map_of (task_map (RefreshPublisherStatus l status_map)) (id' (info_list ! i)) = None \<longrightarrow>
      RefreshPublisherStatus_PublisherInfoList l status_map info_list ! i =
        (info_list ! i)\<lparr>PublisherInfo.status := NOT_VERIFIED\<rparr> \<and>
      map_of (fst (PublisherInfoList_loop
                     (task_map (RefreshPublisherStatus l status_map)) info_list))
        (id' (info_list ! i)) = Some PublisherStatusData_zero) \<and>
   (\<forall>i < length pending_list.
      map_of (task_map (RefreshPublisherStatus l status_map))
        (PendingContributionInfo.publisher_key (pending_list ! i)) = None \<longrightarrow>
      RefreshPublisherStatus_PendingContributionInfoList l status_map pending_list ! i =
        (pending_list ! i)\<lparr>PendingContributionInfo.status := NOT_VERIFIED\<rparr> \<and>
      map_of (fst (PendingContributionInfoList_loop
                     (task_map (RefreshPublisherStatus l status_map)) pending_list))
        (PendingContributionInfo.publisher_key (pending_list ! i)) =
        Some PublisherStatusData_zero) \<and>
   PublisherStatusData.status PublisherStatusData_zero = NOT_VERIFIED"
proof (intro conjI allI impI)
  fix i
  assume i: "i < length info_list"
    and absent: "map_of (task_map (RefreshPublisherStatus l status_map)) (id' (info_list ! i)) = None"
  from absent have "looked_up_status (task_map (RefreshPublisherStatus l status_map))
      (id' (info_list ! i)) = NOT_VERIFIED"
    by (simp add: looked_up_status_def PublisherStatusData_zero_def)
  with i show "RefreshPublisherStatus_PublisherInfoList l status_map info_list ! i =
      (info_list ! i)\<lparr>PublisherInfo.status := NOT_VERIFIED\<rparr>"
    by (simp add: RefreshPublisherStatus_PublisherInfoList_def PublisherInfoList_loop_eq)
  from i have "id' (info_list ! i) \<in> id' ` set info_list" by simp
  with absent show "map_of (fst (PublisherInfoList_loop
        (task_map (RefreshPublisherStatus l status_map)) info_list))
      (id' (info_list ! i)) = Some PublisherStatusData_zero"
    by (simp add: PublisherInfoList_loop_eq map_after_lookups_def)
next
  fix i
  assume i: "i < length pending_list"
    and absent: "map_of (task_map (RefreshPublisherStatus l status_map))
      (PendingContributionInfo.publisher_key (pending_list ! i)) = None"
  from absent have "looked_up_status (task_map (RefreshPublisherStatus l status_map))
      (PendingContributionInfo.publisher_key (pending_list ! i)) = NOT_VERIFIED"
    by (simp add: looked_up_status_def PublisherStatusData_zero_def)
  with i show "RefreshPublisherStatus_PendingContributionInfoList l status_map pending_list ! i =
      (pending_list ! i)\<lparr>PendingContributionInfo.status := NOT_VERIFIED\<rparr>"
    by (simp add: RefreshPublisherStatus_PendingContributionInfoList_def
        PendingContributionInfoList_loop_eq)
  from i have "PendingContributionInfo.publisher_key (pending_list ! i)
      \<in> PendingContributionInfo.publisher_key ` set pending_list" by simp
  with absent show "map_of (fst (PendingContributionInfoList_loop
        (task_map (RefreshPublisherStatus l status_map)) pending_list))
      (PendingContributionInfo.publisher_key (pending_list ! i)) = Some PublisherStatusData_zero"
    by (simp add: PendingContributionInfoList_loop_eq map_after_lookups_def)
next
  show "PublisherStatusData.status PublisherStatusData_zero = NOT_VERIFIED"
    by (simp add: PublisherStatusData_zero_def)
qed

theorem RefreshPublisherStatus_absent_key_witness:
  "RefreshPublisherStatus_PublisherInfoList
     \<lparr>GetUint64Option = (\<lambda>name. 3600),
      ShouldFetchServerPublisherInfo = (\<lambda>t. t < 1000000000),
      SearchPublisherList = (\<lambda>k. k = ''a''),
      RefreshPublisher = (\<lambda>k. CONNECTED)\<rparr>
     [(''a'', \<lparr>PublisherStatusData.status = NOT_VERIFIED, PublisherStatusData.updated_at = 100\<rparr>)]
     [\<lparr>id' = ''a'', PublisherInfo.status = NOT_VERIFIED, PublisherInfo.other_fields = ()\<rparr>,
      \<lparr>id' = ''zz'', PublisherInfo.status = VERIFIED, PublisherInfo.other_fields = ()\<rparr>] ! 1 =
     \<lparr>id' = ''zz'', PublisherInfo.status = NOT_VERIFIED, PublisherInfo.other_fields = ()\<rparr> \<and>
   RefreshPublisherStatus_PendingContributionInfoList
     \<lparr>GetUint64Option = (\<lambda>name. 3600),
      ShouldFetchServerPublisherInfo = (\<lambda>t. t < 1000000000),
      SearchPublisherList = (\<lambda>k. k = ''a''),
      RefreshPublisher = (\<lambda>k. CONNECTED)\<rparr>
     [(''a'', \<lparr>PublisherStatusData.status = NOT_VERIFIED, PublisherStatusData.updated_at = 100\<rparr>)]
     [\<lparr>PendingContributionInfo.publisher_key = ''zz'', PendingContributionInfo.status = VERIFIED,
       PendingContributionInfo.other_fields = ()\<rparr>] ! 0 =
     \<lparr>PendingContributionInfo.publisher_key = ''zz'',
      PendingContributionInfo.status = NOT_VERIFIED,
      PendingContributionInfo.other_fields = ()\<rparr>"
proof -
  have refreshed: "task_map (RefreshPublisherStatus
     \<lparr>GetUint64Option = (\<lambda>name. 3600),
      ShouldFetchServerPublisherInfo = (\<lambda>t. t < 1000000000),
      SearchPublisherList = (\<lambda>k. k = ''a''),
      RefreshPublisher = (\<lambda>k. CONNECTED)\<rparr>
     [(''a'', \<lparr>PublisherStatusData.status = NOT_VERIFIED, PublisherStatusData.updated_at = 100\<rparr>)]) =
     [(''a'', \<lparr>PublisherStatusData.status = CONNECTED, PublisherStatusData.updated_at = 100\<rparr>)]"
    by (simp add: RefreshPublisherStatus_eq(1) refreshed_entry_def expired_entry_def
        FromDoubleT_def)
  show ?thesis
    using RefreshPublisherStatus_absent_key
      [of "[\<lparr>id' = ''a'', PublisherInfo.status = NOT_VERIFIED, PublisherInfo.other_fields = ()\<rparr>,
      \<lparr>id' = ''zz'', PublisherInfo.status = VERIFIED, PublisherInfo.other_fields = ()\<rparr>]"
          "\<lparr>GetUint64Option = (\<lambda>name. 3600),
      ShouldFetchServerPublisherInfo = (\<lambda>t. t < 1000000000),
      SearchPublisherList = (\<lambda>k. k = ''a''),
      RefreshPublisher = (\<lambda>k. CONNECTED)\<rparr>"
          "[(''a'', \<lparr>PublisherStatusData.status = NOT_VERIFIED, PublisherStatusData.updated_at = 100\<rparr>)]"
          "[\<lparr>PendingContributionInfo.publisher_key = ''zz'', PendingContributionInfo.status = VERIFIED,
       PendingContributionInfo.other_fields = ()\<rparr>]"]
    unfolding refreshed
    by (simp add: All_less_Suc)
qed

end
